theory Spec2Isabelle
  imports Main "HOL-Library.Word" "HOL-Library.Multiset"
begin

section \<open>Strings, bytes and hexadecimal text\<close>

text \<open>
  A JavaScript string is a sequence of UTF-16 code units; its \<open>length\<close> counts code
  units. A Node.js \<open>Buffer\<close> is a sequence of octets. ASCII literals of the source are
  written with \<open>lit\<close>.
\<close>

type_synonym byte = "8 word"
type_synonym jschar = "16 word"
type_synonym jsstring = "jschar list"

definition lit :: "string \<Rightarrow> jsstring" where
  "lit s = map of_char s"

text \<open>\<open>Buffer.prototype.toString("hex")\<close>: two lower-case hexadecimal digits per octet.\<close>

definition hexDigits :: jsstring where
  "hexDigits = lit ''0123456789abcdef''"

definition hexByte :: "byte \<Rightarrow> jsstring" where
  "hexByte b = [hexDigits ! (unat b div 16), hexDigits ! (unat b mod 16)]"

definition toHex :: "byte list \<Rightarrow> jsstring" where
  "toHex bs = concat (map hexByte bs)"

text \<open>
  UTF-16 surrogates and UTF-8. \<open>hash.update(string)\<close> hashes the UTF-8 encoding of
  the string; Node.js writes U+FFFD for a surrogate that has no partner.
\<close>

definition isLead :: "jschar \<Rightarrow> bool" where
  "isLead c = (0xD800 \<le> unat c \<and> unat c \<le> 0xDBFF)"

definition isTrail :: "jschar \<Rightarrow> bool" where
  "isTrail c = (0xDC00 \<le> unat c \<and> unat c \<le> 0xDFFF)"

definition surrogatePair :: "jschar \<Rightarrow> jschar \<Rightarrow> nat" where
  "surrogatePair c d = 0x10000 + (unat c - 0xD800) * 0x400 + (unat d - 0xDC00)"

definition utf8 :: "nat \<Rightarrow> byte list" where
  "utf8 cp =
     (if cp < 0x80 then [of_nat cp]
      else if cp < 0x800 then [of_nat (0xC0 + cp div 64), of_nat (0x80 + cp mod 64)]
      else if cp < 0x10000 then
        [of_nat (0xE0 + cp div 4096), of_nat (0x80 + (cp div 64) mod 64),
         of_nat (0x80 + cp mod 64)]
      else
        [of_nat (0xF0 + cp div 262144), of_nat (0x80 + (cp div 4096) mod 64),
         of_nat (0x80 + (cp div 64) mod 64), of_nat (0x80 + cp mod 64)])"

fun utf8Encode :: "jsstring \<Rightarrow> byte list" where
  "utf8Encode [] = []"
| "utf8Encode (c # cs) =
     (if isLead c then
        (case cs of
           [] \<Rightarrow> utf8 0xFFFD
         | d # ds \<Rightarrow>
             if isTrail d then utf8 (surrogatePair c d) @ utf8Encode ds
             else utf8 0xFFFD @ utf8Encode cs)
      else if isTrail c then utf8 0xFFFD @ utf8Encode cs
      else utf8 (unat c) @ utf8Encode cs)"

text \<open>
  \<open>encodeURIComponent\<close> (ECMAScript \<open>Encode\<close> with the unreserved set of
  \<open>encodeURIComponent\<close>): an unreserved code unit is kept, every other code point is
  written as the percent-escaped octets of its UTF-8 encoding (upper-case digits), and a
  surrogate without partner throws \<open>URIError\<close>, here \<open>None\<close>.
\<close>

definition uriUnescaped :: jsstring where
  "uriUnescaped =
     lit ''ABCDEFGHIJKLMNOPQRSTUVWXYZabcdefghijklmnopqrstuvwxyz0123456789-_.!~*()'' @ [0x27]"

definition upperHexDigits :: jsstring where
  "upperHexDigits = lit ''0123456789ABCDEF''"

definition percentEscape :: "byte list \<Rightarrow> jsstring" where
  "percentEscape octets =
     concat (map (\<lambda>b. lit ''%'' @
        [upperHexDigits ! (unat b div 16), upperHexDigits ! (unat b mod 16)]) octets)"

fun encodeURIComponent :: "jsstring \<Rightarrow> jsstring option" where
  "encodeURIComponent [] = Some []"
| "encodeURIComponent (c # cs) =
     (if c \<in> set uriUnescaped then map_option ((#) c) (encodeURIComponent cs)
      else if isTrail c then None
      else if isLead c then
        (case cs of
           [] \<Rightarrow> None
         | d # ds \<Rightarrow>
             if isTrail d
             then map_option ((@) (percentEscape (utf8 (surrogatePair c d))))
                    (encodeURIComponent ds)
             else None)
      else map_option ((@) (percentEscape (utf8 (unat c)))) (encodeURIComponent cs))"


section \<open>ECMAScript time values\<close>

text \<open>
  A Number is modelled as \<open>NaN\<close> or a whole number; the form's numeric fields and all
  time values are whole numbers, on which the arithmetic of doubles is exact up to
  \<open>2 ^ 53\<close>, beyond the range \<open>8.64 * 10 ^ 15\<close> of time values. The functions below
  are the abstract operations of the ECMAScript specification (section "Date Objects"),
  with their names. The offset of the local time zone is a parameter \<open>tza\<close>: \<open>tza t True\<close>
  is the offset in milliseconds at the UTC time \<open>t\<close>, \<open>tza t False\<close> the offset at the
  local time \<open>t\<close>.
\<close>

datatype number = NaN | Fin int

fun addN :: "number \<Rightarrow> number \<Rightarrow> number" where
  "addN (Fin a) (Fin b) = Fin (a + b)"
| "addN _ _ = NaN"

fun mulN :: "number \<Rightarrow> number \<Rightarrow> number" where
  "mulN (Fin a) (Fin b) = Fin (a * b)"
| "mulN _ _ = NaN"

definition msPerDay :: int where "msPerDay = 86400000"
definition msPerHour :: int where "msPerHour = 3600000"
definition msPerMinute :: int where "msPerMinute = 60000"
definition msPerSecond :: int where "msPerSecond = 1000"

definition Day :: "int \<Rightarrow> int" where
  "Day t = t div msPerDay"

definition TimeWithinDay :: "int \<Rightarrow> int" where
  "TimeWithinDay t = t mod msPerDay"

definition DaysInYear :: "int \<Rightarrow> int" where
  "DaysInYear y =
     (if y mod 4 \<noteq> 0 then 365 else if y mod 100 \<noteq> 0 then 366
      else if y mod 400 \<noteq> 0 then 365 else 366)"

definition DayFromYear :: "int \<Rightarrow> int" where
  "DayFromYear y =
     365 * (y - 1970) + (y - 1969) div 4 - (y - 1901) div 100 + (y - 1601) div 400"

definition TimeFromYear :: "int \<Rightarrow> int" where
  "TimeFromYear y = msPerDay * DayFromYear y"

text \<open>
  \<open>YearFromTime t\<close> is specified as the largest \<open>y\<close> with \<open>TimeFromYear y \<le> t\<close>. It is
  computed by a search upwards from a year that is not after the one sought (no year
  has more than 366 or fewer than 365 days).
\<close>

function yearFrom :: "int \<Rightarrow> int \<Rightarrow> int" where
  "yearFrom d y = (if DayFromYear (y + 1) \<le> d then yearFrom d (y + 1) else y)"
  by pat_completeness auto
termination
proof (relation "measure (\<lambda>(d, y). nat (d + 1 - DayFromYear (y + 1)))")
  show "wf (measure (\<lambda>(d, y). nat (d + 1 - DayFromYear (y + 1))))"
    by simp
next
  fix d y :: int
  assume le: "DayFromYear (y + 1) \<le> d"
  have a: "(y - 1968) div 4 \<le> (y - 1967) div 4"
    by (rule zdiv_mono1) simp_all
  have "(y - 1899) div 100 \<le> (y - 1900 + 100) div 100"
    by (rule zdiv_mono1) simp_all
  then have b: "(y - 1899) div 100 \<le> (y - 1900) div 100 + 1"
    by simp
  have c: "(y - 1600) div 400 \<le> (y - 1599) div 400"
    by (rule zdiv_mono1) simp_all
  have "DayFromYear (y + 1) < DayFromYear (y + 1 + 1)"
    using a b c by (simp add: DayFromYear_def)
  with le show "((d, y + 1), (d, y)) \<in> measure (\<lambda>(d, y). nat (d + 1 - DayFromYear (y + 1)))"
    by simp
qed

definition YearFromTime :: "int \<Rightarrow> int" where
  "YearFromTime t =
     (let d = Day t in yearFrom d (1970 + (if 0 \<le> d then d div 366 else d div 365)))"

definition InLeapYear :: "int \<Rightarrow> int" where
  "InLeapYear t = (if DaysInYear (YearFromTime t) = 366 then 1 else 0)"

definition DayWithinYear :: "int \<Rightarrow> int" where
  "DayWithinYear t = Day t - DayFromYear (YearFromTime t)"

definition MonthFromTime :: "int \<Rightarrow> int" where
  "MonthFromTime t =
     (let d = DayWithinYear t; l = InLeapYear t in
      if d < 31 then 0
      else if d < 59 + l then 1
      else if d < 90 + l then 2
      else if d < 120 + l then 3
      else if d < 151 + l then 4
      else if d < 181 + l then 5
      else if d < 212 + l then 6
      else if d < 243 + l then 7
      else if d < 273 + l then 8
      else if d < 304 + l then 9
      else if d < 334 + l then 10
      else 11)"

definition DateFromTime :: "int \<Rightarrow> int" where
  "DateFromTime t =
     (let d = DayWithinYear t; l = InLeapYear t; m = MonthFromTime t in
      if m = 0 then d + 1
      else if m = 1 then d - 30
      else if m = 2 then d - 58 - l
      else if m = 3 then d - 89 - l
      else if m = 4 then d - 119 - l
      else if m = 5 then d - 150 - l
      else if m = 6 then d - 180 - l
      else if m = 7 then d - 211 - l
      else if m = 8 then d - 242 - l
      else if m = 9 then d - 272 - l
      else if m = 10 then d - 303 - l
      else d - 333 - l)"

definition HourFromTime :: "int \<Rightarrow> int" where
  "HourFromTime t = (t div msPerHour) mod 24"

definition MinFromTime :: "int \<Rightarrow> int" where
  "MinFromTime t = (t div msPerMinute) mod 60"

definition SecFromTime :: "int \<Rightarrow> int" where
  "SecFromTime t = (t div msPerSecond) mod 60"

definition msFromTime :: "int \<Rightarrow> int" where
  "msFromTime t = t mod msPerSecond"

definition LocalTime :: "(int \<Rightarrow> bool \<Rightarrow> int) \<Rightarrow> int \<Rightarrow> int" where
  "LocalTime tza t = t + tza t True"

definition UTC :: "(int \<Rightarrow> bool \<Rightarrow> int) \<Rightarrow> number \<Rightarrow> number" where
  "UTC tza n = (case n of NaN \<Rightarrow> NaN | Fin t \<Rightarrow> Fin (t - tza t False))"

definition MakeTime :: "number \<Rightarrow> number \<Rightarrow> number \<Rightarrow> number \<Rightarrow> number" where
  "MakeTime hour minute sec ms =
     (case (hour, minute, sec, ms) of
        (Fin h, Fin m, Fin s, Fin milli) \<Rightarrow>
          Fin (h * msPerHour + m * msPerMinute + s * msPerSecond + milli)
      | _ \<Rightarrow> NaN)"

text \<open>
  \<open>MakeDay\<close>: the day number of the first day of month \<open>mn\<close> of year \<open>ym\<close>, plus
  \<open>dt - 1\<close>. The first day of the month is found from the table of month lengths. The
  specification lets \<open>MakeDay\<close> return \<open>NaN\<close> for a year or month out of the range
  that the implementation supports; the setters below pass the year and the month of a
  time value, which every implementation supports.
\<close>

definition monthStart :: "int \<Rightarrow> int \<Rightarrow> int" where
  "monthStart ym mn =
     (let l = (if DaysInYear ym = 366 then 1 else 0) in
      if mn = 0 then 0
      else if mn = 1 then 31
      else if mn = 2 then 59 + l
      else if mn = 3 then 90 + l
      else if mn = 4 then 120 + l
      else if mn = 5 then 151 + l
      else if mn = 6 then 181 + l
      else if mn = 7 then 212 + l
      else if mn = 8 then 243 + l
      else if mn = 9 then 273 + l
      else if mn = 10 then 304 + l
      else 334 + l)"

definition MakeDay :: "number \<Rightarrow> number \<Rightarrow> number \<Rightarrow> number" where
  "MakeDay year month date =
     (case (year, month, date) of
        (Fin y, Fin m, Fin dt) \<Rightarrow>
          (let ym = y + m div 12; mn = m mod 12 in
           Fin (DayFromYear ym + monthStart ym mn + dt - 1))
      | _ \<Rightarrow> NaN)"

definition MakeDate :: "number \<Rightarrow> number \<Rightarrow> number" where
  "MakeDate day time =
     (case (day, time) of (Fin d, Fin t) \<Rightarrow> Fin (d * msPerDay + t) | _ \<Rightarrow> NaN)"

definition maxTime :: int where
  "maxTime = 8640000000000000"

definition TimeClip :: "number \<Rightarrow> number" where
  "TimeClip time =
     (case time of NaN \<Rightarrow> NaN | Fin t \<Rightarrow> if \<bar>t\<bar> > maxTime then NaN else Fin t)"


section \<open>Date objects and the component's state\<close>

text \<open>
  A \<open>Date\<close> object is an address in the store \<open>dates\<close>, which holds its time value
  (\<open>NaN\<close> for an invalid date). The state also holds the React state variable
  \<open>newSharedSecret\<close> and the calls the component has made so far, in order.
\<close>

record request =
  encryptedValue :: jsstring
  iv :: jsstring
  tag :: jsstring
  hashedHex :: jsstring
  expiresAt :: number
  expiresAfterViews :: int

datatype effect =
    Encrypt
  | Mutate request
  | Notify jsstring jsstring
  | ConsoleError

record state =
  dates :: "nat \<Rightarrow> number"
  fresh :: nat
  newSharedSecret :: jsstring
  effects :: "effect list"

type_synonym tz = "int \<Rightarrow> bool \<Rightarrow> int"

text \<open>\<open>new Date()\<close> at the clock reading \<open>t\<close>: a fresh object.\<close>

definition newDate :: "int \<Rightarrow> state \<Rightarrow> nat \<times> state" where
  "newDate t s =
     (fresh s, s\<lparr>dates := (dates s)(fresh s := Fin t), fresh := Suc (fresh s)\<rparr>)"

definition getMinutes :: "tz \<Rightarrow> nat \<Rightarrow> state \<Rightarrow> number" where
  "getMinutes tza r s =
     (case dates s r of NaN \<Rightarrow> NaN | Fin t \<Rightarrow> Fin (MinFromTime (LocalTime tza t)))"

definition getHours :: "tz \<Rightarrow> nat \<Rightarrow> state \<Rightarrow> number" where
  "getHours tza r s =
     (case dates s r of NaN \<Rightarrow> NaN | Fin t \<Rightarrow> Fin (HourFromTime (LocalTime tza t)))"

definition getDate :: "tz \<Rightarrow> nat \<Rightarrow> state \<Rightarrow> number" where
  "getDate tza r s =
     (case dates s r of NaN \<Rightarrow> NaN | Fin t \<Rightarrow> Fin (DateFromTime (LocalTime tza t)))"

text \<open>
  The setters compute the new time value from the local time of the object, write it
  into the object and return it.
\<close>

definition setMinutes :: "tz \<Rightarrow> nat \<Rightarrow> number \<Rightarrow> state \<Rightarrow> number \<times> state" where
  "setMinutes tza r m s =
     (let u = (case dates s r of
                 NaN \<Rightarrow> NaN
               | Fin tv \<Rightarrow>
                   let t = LocalTime tza tv in
                   TimeClip (UTC tza (MakeDate (Fin (Day t))
                     (MakeTime (Fin (HourFromTime t)) m (Fin (SecFromTime t))
                        (Fin (msFromTime t))))))
      in (u, s\<lparr>dates := (dates s)(r := u)\<rparr>))"

definition setHours :: "tz \<Rightarrow> nat \<Rightarrow> number \<Rightarrow> state \<Rightarrow> number \<times> state" where
  "setHours tza r h s =
     (let u = (case dates s r of
                 NaN \<Rightarrow> NaN
               | Fin tv \<Rightarrow>
                   let t = LocalTime tza tv in
                   TimeClip (UTC tza (MakeDate (Fin (Day t))
                     (MakeTime h (Fin (MinFromTime t)) (Fin (SecFromTime t))
                        (Fin (msFromTime t))))))
      in (u, s\<lparr>dates := (dates s)(r := u)\<rparr>))"

definition setDate :: "tz \<Rightarrow> nat \<Rightarrow> number \<Rightarrow> state \<Rightarrow> number \<times> state" where
  "setDate tza r dt s =
     (let u = (case dates s r of
                 NaN \<Rightarrow> NaN
               | Fin tv \<Rightarrow>
                   let t = LocalTime tza tv in
                   TimeClip (UTC tza (MakeDate
                     (MakeDay (Fin (YearFromTime t)) (Fin (MonthFromTime t)) dt)
                     (Fin (TimeWithinDay t)))))
      in (u, s\<lparr>dates := (dates s)(r := u)\<rparr>))"

section \<open>The expiration units and their actions\<close>

text \<open>
  \<open>expirationUnitsAndActions\<close>: each action receives the \<open>Date\<close> object and the
  number of units, and calls a setter of the object.
\<close>

record item =
  unit :: jsstring
  action :: "tz \<Rightarrow> nat \<Rightarrow> number \<Rightarrow> state \<Rightarrow> number \<times> state"

definition expirationUnitsAndActions :: "item list" where
  "expirationUnitsAndActions =
     [\<lparr>unit = lit ''Minutes'',
       action = (\<lambda>tza expiresAt expiresInValue s.
         setMinutes tza expiresAt (addN (getMinutes tza expiresAt s) expiresInValue) s)\<rparr>,
      \<lparr>unit = lit ''Hours'',
       action = (\<lambda>tza expiresAt expiresInValue s.
         setHours tza expiresAt (addN (getHours tza expiresAt s) expiresInValue) s)\<rparr>,
      \<lparr>unit = lit ''Days'',
       action = (\<lambda>tza expiresAt expiresInValue s.
         setDate tza expiresAt (addN (getDate tza expiresAt s) expiresInValue) s)\<rparr>,
      \<lparr>unit = lit ''Weeks'',
       action = (\<lambda>tza expiresAt expiresInValue s.
         setDate tza expiresAt
           (addN (getDate tza expiresAt s) (mulN expiresInValue (Fin 7))) s)\<rparr>]"


section \<open>The form's schema and \<open>handleSubmit\<close>\<close>

text \<open>
  The values of the four form fields as the form library hands them to the schema. A
  text field is absent or a string; a numeric field is absent, a text that is no number
  (cast to \<open>NaN\<close>), or a number. The numbers of the model are whole; a fraction, which
  the schema would also accept, is outside it.
\<close>

datatype numberInput = Undefined | NotANumber | Number int

record fieldValues =
  fieldValue :: "jsstring option"
  fieldExpiresAfterViews :: numberInput
  fieldExpiresInValue :: numberInput
  fieldExpiresInUnit :: "jsstring option"

text \<open>\<open>FormData\<close>: the data of a form that passed the schema.\<close>

record FormData =
  value' :: jsstring
  expiresAfterViews' :: int
  expiresInValue :: int
  expiresInUnit :: jsstring

datatype path = PathValue | PathExpiresAfterViews | PathExpiresInValue | PathExpiresInUnit

datatype test = RequiredTest | TypeErrorTest | MaxTest | MinTest

text \<open>
  \<open>yup.string().max(n).required()\<close>: \<open>required\<close> fails on an absent value and on
  the empty string, \<open>max\<close> on a string of more than \<open>n\<close> code units.
\<close>

definition stringErrors :: "path \<Rightarrow> nat option \<Rightarrow> jsstring option \<Rightarrow> (path \<times> test) list" where
  "stringErrors p maxLen v =
     (case v of
        None \<Rightarrow> [(p, RequiredTest)]
      | Some str \<Rightarrow>
          (if str = [] then [(p, RequiredTest)] else []) @
          (case maxLen of
             None \<Rightarrow> []
           | Some n \<Rightarrow> if length str \<le> n then [] else [(p, MaxTest)]))"

text \<open>
  \<open>yup.number().min(n).required()\<close>: \<open>required\<close> fails on an absent value, the type
  check on \<open>NaN\<close>, \<open>min\<close> on a number below \<open>n\<close>.
\<close>

definition numberErrors :: "path \<Rightarrow> int \<Rightarrow> numberInput \<Rightarrow> (path \<times> test) list" where
  "numberErrors p minValue v =
     (case v of
        Undefined \<Rightarrow> [(p, RequiredTest)]
      | NotANumber \<Rightarrow> [(p, TypeErrorTest)]
      | Number n \<Rightarrow> if minValue \<le> n then [] else [(p, MinTest)])"

definition schemaErrors :: "fieldValues \<Rightarrow> (path \<times> test) list" where
  "schemaErrors fv =
     stringErrors PathValue (Some 10000) (fieldValue fv) @
     numberErrors PathExpiresAfterViews 1 (fieldExpiresAfterViews fv) @
     numberErrors PathExpiresInValue 1 (fieldExpiresInValue fv) @
     stringErrors PathExpiresInUnit None (fieldExpiresInUnit fv)"

definition schema :: "fieldValues \<Rightarrow> (path \<times> test) list + FormData" where
  "schema fv =
     (case (schemaErrors fv, fieldValue fv, fieldExpiresAfterViews fv,
            fieldExpiresInValue fv, fieldExpiresInUnit fv) of
        ([], Some v, Number views, Number n, Some u) \<Rightarrow>
          Inr \<lparr>value' = v, expiresAfterViews' = views, expiresInValue = n,
               expiresInUnit = u\<rparr>
      | (errs, _) \<Rightarrow> Inl errs)"

section \<open>\<open>onFormSubmit\<close>\<close>

text \<open>
  What the component takes from its surroundings: the organisation of the context, the
  operating system's random octets (\<open>crypto.randomBytes\<close>), SHA-256
  (\<open>crypto.createHash("sha256")\<close>, a digest of 256 bits), the repository's
  \<open>encryptSymmetric\<close> (which returns \<open>ciphertext\<close>, \<open>iv\<close> and \<open>tag\<close>), the clock
  and time zone of \<open>Date\<close>, \<open>window.location.origin\<close>, and the answer of the mutation
  \<open>createSharedSecret.mutateAsync\<close>: the \<open>id\<close> of the new record, or a rejection with
  the HTTP status of the response when there is one. The clock is the time value that
  \<open>new Date()\<close> reads, a time after 1970 in every run; from such a reading every sum
  and product of the setters is either below \<open>2 ^ 53\<close> or so large that the result
  lies beyond the range of time values, in doubles as in whole numbers.
\<close>

record env =
  currentOrgId :: "jsstring option"
  entropy :: "nat \<Rightarrow> byte"
  sha256 :: "byte list \<Rightarrow> 256 word"
  encryptSymmetric :: "jsstring \<Rightarrow> jsstring \<Rightarrow> jsstring \<times> jsstring \<times> jsstring"
  clock :: int
  localTZA :: tz
  origin :: jsstring
  mutateAsync :: "request \<Rightarrow> nat option + jsstring"

definition randomBytes :: "env \<Rightarrow> nat \<Rightarrow> byte list" where
  "randomBytes e n = map (entropy e) [0..<n]"

text \<open>\<open>digest("hex")\<close>: the 32 octets of the digest, most significant first, in hex.\<close>

definition digestBytes :: "256 word \<Rightarrow> byte list" where
  "digestBytes d = map (\<lambda>i. ucast (drop_bit (8 * (31 - i)) d)) [0..<32]"

definition falsy :: "jsstring option \<Rightarrow> bool" where
  "falsy v = (case v of None \<Rightarrow> True | Some str \<Rightarrow> str = [])"

text \<open>The \<open>catch\<close> block: the error is logged and a notification is shown.\<close>

definition catchBlock :: "nat option \<Rightarrow> state \<Rightarrow> state" where
  "catchBlock responseStatus s =
     s\<lparr>effects := effects s @
        [ConsoleError,
         if responseStatus = Some 401
         then Notify (lit ''You do not have access to create shared secrets'') (lit ''error'')
         else Notify (lit ''Failed to create a shared secret'') (lit ''error'')]\<rparr>"

definition generateKey :: "env \<Rightarrow> jsstring" where
  "generateKey e = toHex (randomBytes e 16)"

definition hashKey :: "env \<Rightarrow> jsstring \<Rightarrow> jsstring" where
  "hashKey e k = toHex (digestBytes (sha256 e (utf8Encode k)))"

text \<open>
  The expiry: a new \<open>Date\<close>, changed by the action of the unit when there is one and
  the number of units is truthy. The result is the object and the state.
\<close>

definition computeExpiresAt :: "env \<Rightarrow> jsstring \<Rightarrow> int \<Rightarrow> state \<Rightarrow> nat \<times> state" where
  "computeExpiresAt e u n s =
     (let (expiresAt, s1) = newDate (clock e) s;
          updateExpiresAt =
            map_option action (find (\<lambda>i. unit i = u) expirationUnitsAndActions)
      in case updateExpiresAt of
           None \<Rightarrow> (expiresAt, s1)
         | Some act \<Rightarrow>
             if n \<noteq> 0 then (expiresAt, snd (act (localTZA e) expiresAt (Fin n) s1))
             else (expiresAt, s1))"

definition onFormSubmit :: "env \<Rightarrow> FormData \<Rightarrow> state \<Rightarrow> state" where
  "onFormSubmit e d s =
     (if falsy (currentOrgId e) then s
      else
        let k = generateKey e;
            h = hashKey e k;
            (ciphertext, iv', tag') = encryptSymmetric e (value' d) k;
            s1 = s\<lparr>effects := effects s @ [Encrypt]\<rparr>;
            (r, s2) = computeExpiresAt e (expiresInUnit d) (expiresInValue d) s1;
            req = \<lparr>encryptedValue = ciphertext, iv = iv', tag = tag', hashedHex = h,
                   expiresAt = dates s2 r, expiresAfterViews = expiresAfterViews' d\<rparr>;
            s3 = s2\<lparr>effects := effects s2 @ [Mutate req]\<rparr>
        in case mutateAsync e req of
             Inl responseStatus \<Rightarrow> catchBlock responseStatus s3
           | Inr ident \<Rightarrow>
               (case (encodeURIComponent h, encodeURIComponent k) of
                  (Some eh, Some ek) \<Rightarrow>
                    s3\<lparr>newSharedSecret :=
                         origin e @ lit ''/shared/secret/'' @ ident @ lit ''?key='' @
                         eh @ lit ''-'' @ ek,
                       effects := effects s3 @
                         [Notify (lit ''Successfully created a shared secret'')
                            (lit ''success'')]\<rparr>
                | _ \<Rightarrow> catchBlock None s3))"

text \<open>
  \<open>handleSubmit(onFormSubmit)\<close> with the schema as resolver: the errors of the schema
  are shown at the fields and \<open>onFormSubmit\<close> is not called; a valid form is passed on.
\<close>

definition handleSubmit :: "env \<Rightarrow> fieldValues \<Rightarrow> state \<Rightarrow> (path \<times> test) list \<times> state" where
  "handleSubmit e fv s =
     (case schema fv of
        Inl errs \<Rightarrow> (errs, s)
      | Inr d \<Rightarrow> ([], onFormSubmit e d s))"


section \<open>Observations of a run\<close>

text \<open>The arguments of the calls of \<open>mutateAsync\<close> that a state records, in order.\<close>

definition mutateArgs :: "state \<Rightarrow> request list" where
  "mutateArgs s = concat (map (\<lambda>f. case f of Mutate req \<Rightarrow> [req] | _ \<Rightarrow> []) (effects s))"

text \<open>
  The object that \<open>onFormSubmit\<close> passes to \<open>mutateAsync\<close> (lines 120 to 127), from
  the values it has computed by then.
\<close>

definition requestOf :: "env \<Rightarrow> FormData \<Rightarrow> state \<Rightarrow> request" where
  "requestOf e d s =
     (let k = generateKey e;
          (ciphertext, iv', tag') = encryptSymmetric e (value' d) k;
          (r, s2) = computeExpiresAt e (expiresInUnit d) (expiresInValue d)
                      (s\<lparr>effects := effects s @ [Encrypt]\<rparr>)
      in \<lparr>encryptedValue = ciphertext, iv = iv', tag = tag', hashedHex = hashKey e k,
          expiresAt = dates s2 r, expiresAfterViews = expiresAfterViews' d\<rparr>)"

subsection \<open>The expiry as the specification words it\<close>

text \<open>
  The specification's \<open>ExpirationPolicy\<close>: \<open>expiresAt = now + value * unitLength\<close> by
  calendar-aware addition. \<open>unitLength\<close> is the length of a recognised unit in
  milliseconds of local time, and \<open>calendarAdd\<close> adds a span to the local time of
  \<open>now\<close> and converts the result back to a time value. The functions of the source are
  compared with them below.
\<close>

definition unitLength :: "jsstring \<Rightarrow> int option" where
  "unitLength u =
     (if u = lit ''Minutes'' then Some msPerMinute
      else if u = lit ''Hours'' then Some msPerHour
      else if u = lit ''Days'' then Some msPerDay
      else if u = lit ''Weeks'' then Some (7 * msPerDay)
      else None)"

definition calendarAdd :: "int \<Rightarrow> tz \<Rightarrow> int \<Rightarrow> number" where
  "calendarAdd now tza span = TimeClip (UTC tza (Fin (LocalTime tza now + span)))"

text \<open>
  The time value that \<open>computeExpiresAt\<close> leaves in its new \<open>Date\<close> object, as a
  function of the clock, the time zone, the unit and the number of units (lemma
  \<open>computeExpiresAt_eq\<close> below): an unknown unit and the number 0 leave the clock
  reading.
\<close>

definition expiryValue :: "int \<Rightarrow> tz \<Rightarrow> jsstring \<Rightarrow> int \<Rightarrow> number" where
  "expiryValue now tza u n =
     (case unitLength u of
        None \<Rightarrow> Fin now
      | Some len \<Rightarrow> if n \<noteq> 0 then calendarAdd now tza (n * len) else Fin now)"

subsection \<open>A concrete run\<close>

text \<open>
  An environment, a state and a form on which the theorems are instantiated: the
  clock reads 2024-10-20 12:00:00 UTC, the time zone is one hour ahead of UTC.
\<close>

definition env0 :: env where
  "env0 =
     \<lparr>currentOrgId = Some (lit ''org''),
      entropy = (\<lambda>i. of_nat (17 * i + 3)),
      sha256 = (\<lambda>bs. of_nat (length bs) + 0xA5),
      encryptSymmetric = (\<lambda>p k. (lit ''ct'', lit ''iv'', lit ''tg'')),
      clock = 1729425600000,
      localTZA = (\<lambda>t isUTC. 3600000),
      origin = lit ''https://app.test'',
      mutateAsync = (\<lambda>req. Inr (lit ''id7''))\<rparr>"

definition state0 :: state where
  "state0 = \<lparr>dates = (\<lambda>r. NaN), fresh = 0, newSharedSecret = [], effects = []\<rparr>"

definition fields0 :: fieldValues where
  "fields0 =
     \<lparr>fieldValue = Some (lit ''hello''), fieldExpiresAfterViews = Number 1,
      fieldExpiresInValue = Number 30, fieldExpiresInUnit = Some (lit ''Days'')\<rparr>"

definition form0 :: FormData where
  "form0 =
     \<lparr>value' = lit ''hello'', expiresAfterViews' = 1, expiresInValue = 30,
      expiresInUnit = lit ''Days''\<rparr>"

text \<open>
  The time zone of Berlin in 2024, for the concrete runs below: one hour ahead of UTC,
  two hours from 2024-03-31 01:00 UTC to 2024-10-27 01:00 UTC. A local time that the
  clocks skip or show twice is read with the offset from before the change, as the
  ECMAScript specification says.
\<close>

definition berlin2024 :: tz where
  "berlin2024 t isUTC =
     (if isUTC then (if 1711846800000 \<le> t \<and> t < 1729990800000 then 7200000 else 3600000)
      else (if 1711854000000 \<le> t \<and> t < 1729998000000 then 7200000 else 3600000))"

definition envBerlin :: env where
  "envBerlin = env0\<lparr>localTZA := berlin2024\<rparr>"

section \<open>The share record store of the specification\<close>

text \<open>
  Modelled from the spec: the \<open>ShareRecord\<close> of section 3 of the specification and its
  status; the store that holds the records is code of the server, which is not among the
  sources.
\<close>

datatype recordStatus = ACTIVE | EXPIRED | EXHAUSTED | REVOKED

record ShareRecord =
  encryptedPayload :: "jsstring \<times> jsstring \<times> jsstring"
  verifier :: jsstring
  recordExpiresAt :: "int option"
  maxViews :: "nat option"
  viewsConsumed :: nat
  status :: recordStatus

datatype RedemptionError = NotFound | Expired | VerifierMismatch

type_synonym store = "jsstring \<rightharpoonup> ShareRecord"

text \<open>
  Modelled from the spec: \<open>ShareRecordStore.redeem\<close> (section 4.5 of the
  specification), code of the server that is not among the sources. Its steps are one
  atomic step on the store: (1) \<open>NotFound\<close> when the record is absent; (2) \<open>Expired\<close>
  when the status is not \<open>ACTIVE\<close> or the clock has passed \<open>expiresAt\<close>; (3)
  \<open>VerifierMismatch\<close> when the supplied verifier is not that of the record; (4) the
  count of views is incremented, and the status becomes \<open>EXHAUSTED\<close> when the new count
  reaches \<open>maxViews\<close>; (5) the result is the record as it was before the increment.
\<close>

definition redeem ::
  "int \<Rightarrow> jsstring \<Rightarrow> jsstring \<Rightarrow> store \<Rightarrow> (RedemptionError + ShareRecord) \<times> store" where
  "redeem now ident suppliedVerifier st =
     (case st ident of
        None \<Rightarrow> (Inl NotFound, st)
      | Some r \<Rightarrow>
          if status r \<noteq> ACTIVE \<or> (case recordExpiresAt r of None \<Rightarrow> False | Some t \<Rightarrow> now > t)
          then (Inl Expired, st)
          else if suppliedVerifier \<noteq> verifier r then (Inl VerifierMismatch, st)
          else
            let n = viewsConsumed r + 1;
                r' = r\<lparr>viewsConsumed := n,
                       status := (if maxViews r = Some n then EXHAUSTED else ACTIVE)\<rparr>
            in (Inr r, st(ident \<mapsto> r')))"

text \<open>
  Modelled from the spec: redemptions of one record, each an atomic step (section 5 of
  the specification), in the order in which the store executes them; a call is the clock
  reading and the verifier that the caller supplies. Concurrent callers are executed in
  some order: an interleaving is a permutation of the list of calls.
\<close>

fun redeemAll :: "jsstring \<Rightarrow> (int \<times> jsstring) list \<Rightarrow> store \<Rightarrow> (RedemptionError + ShareRecord) list" where
  "redeemAll ident [] st = []"
| "redeemAll ident ((now, v) # calls) st =
     (case redeem now ident v st of (res, st') \<Rightarrow> res # redeemAll ident calls st')"

definition successes :: "(RedemptionError + ShareRecord) list \<Rightarrow> nat" where
  "successes rs = length (filter (\<lambda>r. \<not> isl r) rs)"


text \<open>
  A call that the store does not refuse for its verifier or its time: the caller supplies
  the verifier of the record, and the clock has not passed the expiry of the record.
\<close>

definition validCall :: "ShareRecord \<Rightarrow> int \<times> jsstring \<Rightarrow> bool" where
  "validCall r c =
     (snd c = verifier r \<and> (case recordExpiresAt r of None \<Rightarrow> True | Some t \<Rightarrow> fst c \<le> t))"

text \<open>A record with one view, its store, and two callers with the right verifier.\<close>

definition record0 :: ShareRecord where
  "record0 =
     \<lparr>encryptedPayload = (lit ''ct'', lit ''iv'', lit ''tg''), verifier = lit ''c5'',
      recordExpiresAt = Some 1732017600000, maxViews = Some 1, viewsConsumed = 0,
      status = ACTIVE\<rparr>"

definition store0 :: store where
  "store0 = [lit ''id7'' \<mapsto> record0]"

definition calls0 :: "(int \<times> jsstring) list" where
  "calls0 = [(1729425600000, lit ''c5''), (1729425600001, lit ''c5'')]"

section \<open>Hexadecimal text and its encodings\<close>

lemma length_hexDigits: "length hexDigits = 16"
  by (simp add: hexDigits_def lit_def)

lemma length_hexByte: "length (hexByte b) = 2"
  by (simp add: hexByte_def)

lemma set_hexByte: "set (hexByte b) \<subseteq> set hexDigits"
proof -
  have "unat b < 256"
    using unsigned_less [of b] by simp
  then have "unat b div 16 < 16"
    by simp
  moreover have "unat b mod 16 < 16"
    by simp
  ultimately show ?thesis
    by (simp add: hexByte_def length_hexDigits)
qed

lemma length_toHex: "length (toHex bs) = 2 * length bs"
  by (induction bs) (simp_all add: toHex_def length_hexByte)

lemma set_toHex: "set (toHex bs) \<subseteq> set hexDigits"
  using set_hexByte by (auto simp: toHex_def)

lemma hexDigits_ascii: "c \<in> set hexDigits \<Longrightarrow> unat c < 0x80"
  by (auto simp: hexDigits_def lit_def)

lemma utf8Encode_ascii: "\<forall>c \<in> set str. unat c < 0x80 \<Longrightarrow> utf8Encode str = map ucast str"
proof (induction str)
  case Nil
  then show ?case by simp
next
  case (Cons c cs)
  then have c: "unat c < 0x80"
    by simp
  then have "\<not> isLead c" "\<not> isTrail c"
    by (simp_all add: isLead_def isTrail_def)
  moreover have "utf8 (unat c) = [ucast c]"
    using c by (simp add: utf8_def)
  ultimately show ?case
    using Cons by simp
qed

lemma utf8Encode_toHex: "utf8Encode (toHex bs) = map ucast (toHex bs)"
  using set_toHex [of bs] hexDigits_ascii by (intro utf8Encode_ascii) blast

lemma hexDigits_unescaped: "set hexDigits \<subseteq> set uriUnescaped"
  by (simp add: hexDigits_def uriUnescaped_def lit_def)

lemma encodeURIComponent_unescaped:
  "set str \<subseteq> set uriUnescaped \<Longrightarrow> encodeURIComponent str = Some str"
  by (induction str) simp_all

lemma encodeURIComponent_toHex: "encodeURIComponent (toHex bs) = Some (toHex bs)"
  using set_toHex [of bs] hexDigits_unescaped by (intro encodeURIComponent_unescaped) blast

lemma length_digestBytes: "length (digestBytes d) = 32"
  by (simp add: digestBytes_def)

lemma length_randomBytes: "length (randomBytes e n) = n"
  by (simp add: randomBytes_def)

lemma length_generateKey: "length (generateKey e) = 32"
  by (simp add: generateKey_def length_toHex length_randomBytes)

lemma length_hashKey: "length (hashKey e k) = 64"
  by (simp add: hashKey_def length_toHex length_digestBytes)

lemma dash_not_hex: "lit ''-'' = [0x2D] \<and> 0x2D \<notin> set hexDigits"
  by (simp add: lit_def hexDigits_def)

section \<open>The calendar\<close>

lemma div_succ:
  fixes x k :: int
  assumes k: "0 < k"
  shows "(x + 1) div k = x div k + (if (x + 1) mod k = 0 then 1 else 0)"
proof -
  define q r where "q = x div k" and "r = x mod k"
  have x: "x = k * q + r"
    by (simp add: q_def r_def)
  have r: "0 \<le> r" "r < k"
    using k by (simp_all add: r_def)
  show ?thesis
  proof (cases "r + 1 = k")
    case True
    then have eq: "x + 1 = k * (q + 1) + 0"
      using x by (simp add: algebra_simps)
    have "(x + 1) div k = q + 1"
      by (rule int_div_pos_eq [of _ k "q + 1" 0]) (use eq k in simp_all)
    moreover have "(x + 1) mod k = 0"
      by (rule int_mod_pos_eq [of _ k "q + 1" 0]) (use eq k in simp_all)
    ultimately show ?thesis
      by (simp add: q_def)
  next
    case False
    then have lt: "r + 1 < k"
      using r by simp
    have eq: "x + 1 = k * q + (r + 1)"
      using x by simp
    have "(x + 1) div k = q"
      by (rule int_div_pos_eq [of _ k q "r + 1"]) (use eq lt r in simp_all)
    moreover have "(x + 1) mod k = r + 1"
      by (rule int_mod_pos_eq [of _ k q "r + 1"]) (use eq lt r in simp_all)
    ultimately show ?thesis
      using r by (simp add: q_def)
  qed
qed

lemma DayFromYear_step: "DayFromYear (y + 1) = DayFromYear y + DaysInYear y"
proof -
  have m4: "(y - 1968) mod 4 = y mod 4"
    using mod_mult_self2 [of y 4 "-492"] by simp
  have m100: "(y - 1900) mod 100 = y mod 100"
    using mod_mult_self2 [of y 100 "-19"] by simp
  have m400: "(y - 1600) mod 400 = y mod 400"
    using mod_mult_self2 [of y 400 "-4"] by simp
  have d4: "(y - 1968) div 4 = (y - 1969) div 4 + (if y mod 4 = 0 then 1 else 0)"
    using div_succ [of 4 "y - 1969"] m4 by simp
  have d100: "(y - 1900) div 100 = (y - 1901) div 100 + (if y mod 100 = 0 then 1 else 0)"
    using div_succ [of 100 "y - 1901"] m100 by simp
  have d400: "(y - 1600) div 400 = (y - 1601) div 400 + (if y mod 400 = 0 then 1 else 0)"
    using div_succ [of 400 "y - 1601"] m400 by simp
  have i1: "y mod 100 = 0 \<Longrightarrow> y mod 4 = 0"
    by presburger
  have i2: "y mod 400 = 0 \<Longrightarrow> y mod 100 = 0"
    by force
  have "DayFromYear (y + 1) =
      365 * (y - 1969) + (y - 1968) div 4 - (y - 1900) div 100 + (y - 1600) div 400"
    by (simp add: DayFromYear_def)
  then show ?thesis
    using i1 i2 by (simp add: d4 d100 d400 DayFromYear_def DaysInYear_def)
qed

lemma DaysInYear_bounds: "365 \<le> DaysInYear y" "DaysInYear y \<le> 366"
  by (simp_all add: DaysInYear_def)

lemma DayFromYear_span:
  fixes n :: int
  assumes "0 \<le> n"
  shows "DayFromYear y + 365 * n \<le> DayFromYear (y + n) \<and>
         DayFromYear (y + n) \<le> DayFromYear y + 366 * n"
  using assms
proof (induction n rule: int_ge_induct)
  case base
  then show ?case by simp
next
  case (step i)
  have "DayFromYear (y + (i + 1)) = DayFromYear (y + i) + DaysInYear (y + i)"
    using DayFromYear_step [of "y + i"] by (simp add: add.assoc)
  then show ?case
    using step.IH DaysInYear_bounds [of "y + i"] by simp
qed

lemma DayFromYear_1970: "DayFromYear 1970 = 0"
  by (simp add: DayFromYear_def)

lemma yearFrom_start: "DayFromYear (1970 + (if 0 \<le> d then d div 366 else d div 365)) \<le> d"
proof (cases "0 \<le> d")
  case True
  then have "0 \<le> d div 366" by simp
  from DayFromYear_span [OF this, of 1970]
  have "DayFromYear (1970 + d div 366) \<le> 366 * (d div 366)"
    by (simp add: DayFromYear_1970)
  also have "\<dots> \<le> d"
    using True by (simp add: mult.commute) 
  finally show ?thesis using True by simp
next
  case False
  define k where "k = - (d div 365)"
  have k: "0 \<le> k" using False div_neg_pos_less0 [of d 365] by (simp add: k_def)
  from DayFromYear_span [OF k, of "1970 - k"]
  have "DayFromYear (1970 - k) + 365 * k \<le> 0"
    by (simp add: DayFromYear_1970)
  then have "DayFromYear (1970 + d div 365) \<le> 365 * (d div 365)"
    by (simp add: k_def)
  also have "\<dots> \<le> d"
    by (simp add: mult.commute)
  finally show ?thesis using False by simp
qed

lemma yearFrom_correct:
  "DayFromYear y \<le> d \<Longrightarrow>
   DayFromYear (yearFrom d y) \<le> d \<and> d < DayFromYear (yearFrom d y + 1)"
proof (induction d y rule: yearFrom.induct)
  case (1 d y)
  show ?case
  proof (cases "DayFromYear (y + 1) \<le> d")
    case True
    then have "yearFrom d y = yearFrom d (y + 1)"
      by (subst yearFrom.simps) simp
    with "1.IH" [OF True True] show ?thesis by simp
  next
    case False
    then have "yearFrom d y = y"
      by (subst yearFrom.simps) simp
    with False "1.prems" show ?thesis by simp
  qed
qed

lemma YearFromTime_spec:
  "DayFromYear (YearFromTime t) \<le> Day t \<and> Day t < DayFromYear (YearFromTime t + 1)"
  unfolding YearFromTime_def Let_def by (rule yearFrom_correct) (rule yearFrom_start)

lemma YearFromTime_greatest:
  "TimeFromYear (YearFromTime t) \<le> t \<and> t < TimeFromYear (YearFromTime t + 1)"
proof -
  define m where "m = t mod 86400000"
  have t: "t = 86400000 * Day t + m"
    by (simp add: Day_def msPerDay_def m_def)
  have r: "0 \<le> m" "m < 86400000"
    by (simp_all add: m_def)
  show ?thesis
    unfolding TimeFromYear_def msPerDay_def
    using YearFromTime_spec [of t] t r by linarith
qed

lemma DayWithinYear_range:
  "0 \<le> DayWithinYear t \<and> DayWithinYear t < DaysInYear (YearFromTime t)"
  using YearFromTime_spec [of t] DayFromYear_step [of "YearFromTime t"]
  by (simp add: DayWithinYear_def)

lemma MonthFromTime_range: "0 \<le> MonthFromTime t \<and> MonthFromTime t \<le> 11"
  by (simp add: MonthFromTime_def Let_def)

lemma MakeDay_of_date:
  "MakeDay (Fin (YearFromTime t)) (Fin (MonthFromTime t)) (Fin (DateFromTime t + n)) =
     Fin (Day t + n)"
proof -
  define m where "m = MonthFromTime t"
  have m: "0 \<le> m" "m \<le> 11"
    using MonthFromTime_range [of t] by (simp_all add: m_def)
  then have dm: "m div 12 = 0" "m mod 12 = m"
    by simp_all
  have "monthStart (YearFromTime t) m + DateFromTime t - 1 = DayWithinYear t"
    using DayWithinYear_range [of t]
    by (simp add: monthStart_def DateFromTime_def MonthFromTime_def InLeapYear_def m_def Let_def)
  then show ?thesis
    by (simp add: MakeDay_def dm DayWithinYear_def Let_def flip: m_def)
qed

lemma time_fields:
  "HourFromTime t * msPerHour + MinFromTime t * msPerMinute + SecFromTime t * msPerSecond +
     msFromTime t = TimeWithinDay t"
proof -
  have a: "t mod 60000 = 1000 * (t div 1000 mod 60) + t mod 1000"
    using zmod_zmult2_eq [of 60 t 1000] by simp
  have b: "t mod 3600000 = 60000 * (t div 60000 mod 60) + t mod 60000"
    using zmod_zmult2_eq [of 60 t 60000] by simp
  have c: "t mod 86400000 = 3600000 * (t div 3600000 mod 24) + t mod 3600000"
    using zmod_zmult2_eq [of 24 t 3600000] by simp
  show ?thesis
    by (simp add: HourFromTime_def MinFromTime_def SecFromTime_def msFromTime_def
        TimeWithinDay_def msPerHour_def msPerMinute_def msPerSecond_def msPerDay_def a b c)
qed

lemma day_time: "Day t * msPerDay + TimeWithinDay t = t"
  by (simp add: Day_def TimeWithinDay_def)


text \<open>
  The computed functions meet their specification: \<open>YearFromTime t\<close> is the largest
  year that starts at or before \<open>t\<close>, and the day that \<open>MakeDay\<close> takes for the
  first of a month is the day whose year, month and day of the month are that year, that
  month and 1.
\<close>

lemma DayFromYear_mono: "y \<le> y' \<Longrightarrow> DayFromYear y \<le> DayFromYear y'"
  using DayFromYear_span [of "y' - y" y] by simp

lemma YearFromTime_unique:
  assumes "DayFromYear y \<le> Day t" and "Day t < DayFromYear (y + 1)"
  shows "YearFromTime t = y"
proof (rule ccontr)
  assume ne: "YearFromTime t \<noteq> y"
  note s = YearFromTime_spec [of t]
  show False
  proof (cases "YearFromTime t < y")
    case True
    then have "DayFromYear (YearFromTime t + 1) \<le> DayFromYear y"
      by (intro DayFromYear_mono) simp
    with s assms show False by simp
  next
    case False
    with ne have "DayFromYear (y + 1) \<le> DayFromYear (YearFromTime t)"
      by (intro DayFromYear_mono) simp
    with s assms show False by simp
  qed
qed

lemma YearFromTime_largest:
  assumes "TimeFromYear y \<le> t"
  shows "y \<le> YearFromTime t"
proof (rule ccontr)
  assume "\<not> y \<le> YearFromTime t"
  then have "DayFromYear (YearFromTime t + 1) \<le> DayFromYear y"
    by (intro DayFromYear_mono) simp
  then have "TimeFromYear (YearFromTime t + 1) \<le> TimeFromYear y"
    by (simp add: TimeFromYear_def msPerDay_def)
  with assms YearFromTime_greatest [of t] show False
    by simp
qed

lemma MakeDay_first_of_month:
  assumes "0 \<le> mn" and "mn \<le> 11" and "t = msPerDay * (DayFromYear ym + monthStart ym mn)"
  shows "YearFromTime t = ym \<and> MonthFromTime t = mn \<and> DateFromTime t = 1"
proof -
  have d: "Day t = DayFromYear ym + monthStart ym mn"
    using assms(3) by (simp add: Day_def msPerDay_def)
  have m: "0 \<le> monthStart ym mn" "monthStart ym mn < DaysInYear ym"
    using assms(1,2) by (auto simp: monthStart_def DaysInYear_def Let_def)
  have y: "YearFromTime t = ym"
    using m by (intro YearFromTime_unique) (simp_all add: d DayFromYear_step)
  have w: "DayWithinYear t = monthStart ym mn"
    by (simp add: DayWithinYear_def d y)
  have l: "InLeapYear t = (if DaysInYear ym = 366 then 1 else 0)"
    by (simp add: InLeapYear_def y)
  have cases: "mn = 0 \<or> mn = 1 \<or> mn = 2 \<or> mn = 3 \<or> mn = 4 \<or> mn = 5 \<or> mn = 6 \<or> mn = 7 \<or>
      mn = 8 \<or> mn = 9 \<or> mn = 10 \<or> mn = 11"
    using assms(1,2) by presburger
  have mo: "MonthFromTime t = mn"
    using cases by (auto simp: MonthFromTime_def w l monthStart_def Let_def)
  have "DateFromTime t = 1"
    using cases by (auto simp: DateFromTime_def mo w l monthStart_def Let_def)
  with y mo show ?thesis
    by simp
qed

section \<open>The setters and the actions\<close>

lemma diff_units:
  "lit ''Minutes'' \<noteq> lit ''Hours''" "lit ''Minutes'' \<noteq> lit ''Days''" "lit ''Minutes'' \<noteq> lit ''Weeks''"
  "lit ''Hours'' \<noteq> lit ''Days''" "lit ''Hours'' \<noteq> lit ''Weeks''" "lit ''Days'' \<noteq> lit ''Weeks''"
  by (simp_all add: lit_def)

lemma setMinutes_add:
  assumes "dates s r = Fin now"
  shows "setMinutes tza r (addN (getMinutes tza r s) (Fin n)) s =
     (calendarAdd now tza (n * msPerMinute),
      s\<lparr>dates := (dates s)(r := calendarAdd now tza (n * msPerMinute))\<rparr>)"
proof -
  define t where "t = LocalTime tza now"
  have "HourFromTime t * msPerHour + (MinFromTime t + n) * msPerMinute +
      SecFromTime t * msPerSecond + msFromTime t = TimeWithinDay t + n * msPerMinute"
    using time_fields [of t] by (simp add: algebra_simps)
  then have "MakeDate (Fin (Day t))
      (MakeTime (Fin (HourFromTime t)) (Fin (MinFromTime t + n)) (Fin (SecFromTime t))
         (Fin (msFromTime t))) = Fin (t + n * msPerMinute)"
    using day_time [of t] by (simp add: MakeDate_def MakeTime_def)
  then show ?thesis
    using assms by (simp add: setMinutes_def getMinutes_def calendarAdd_def Let_def flip: t_def)
qed

lemma setHours_add:
  assumes "dates s r = Fin now"
  shows "setHours tza r (addN (getHours tza r s) (Fin n)) s =
     (calendarAdd now tza (n * msPerHour),
      s\<lparr>dates := (dates s)(r := calendarAdd now tza (n * msPerHour))\<rparr>)"
proof -
  define t where "t = LocalTime tza now"
  have "(HourFromTime t + n) * msPerHour + MinFromTime t * msPerMinute +
      SecFromTime t * msPerSecond + msFromTime t = TimeWithinDay t + n * msPerHour"
    using time_fields [of t] by (simp add: algebra_simps)
  then have "MakeDate (Fin (Day t))
      (MakeTime (Fin (HourFromTime t + n)) (Fin (MinFromTime t)) (Fin (SecFromTime t))
         (Fin (msFromTime t))) = Fin (t + n * msPerHour)"
    using day_time [of t] by (simp add: MakeDate_def MakeTime_def)
  then show ?thesis
    using assms by (simp add: setHours_def getHours_def calendarAdd_def Let_def flip: t_def)
qed

lemma setDate_add:
  assumes "dates s r = Fin now"
  shows "setDate tza r (addN (getDate tza r s) (Fin n)) s =
     (calendarAdd now tza (n * msPerDay),
      s\<lparr>dates := (dates s)(r := calendarAdd now tza (n * msPerDay))\<rparr>)"
proof -
  define t where "t = LocalTime tza now"
  have "MakeDate (MakeDay (Fin (YearFromTime t)) (Fin (MonthFromTime t))
      (Fin (DateFromTime t + n))) (Fin (TimeWithinDay t)) = Fin (t + n * msPerDay)"
    unfolding MakeDay_of_date using day_time [of t] by (simp add: MakeDate_def algebra_simps)
  then show ?thesis
    using assms by (simp add: setDate_def getDate_def calendarAdd_def Let_def flip: t_def)
qed


lemma action_in_place:
  assumes "i \<in> set expirationUnitsAndActions"
  shows "snd (action i tza r v s) = s\<lparr>dates := (dates s)(r := fst (action i tza r v s))\<rparr>"
  using assms
  by (auto simp: expirationUnitsAndActions_def setMinutes_def setHours_def setDate_def Let_def)

lemma updateExpiresAt_cases:
  "map_option action (find (\<lambda>i. unit i = u) expirationUnitsAndActions) =
     (if u = lit ''Minutes'' then
        Some (\<lambda>tza r v s. setMinutes tza r (addN (getMinutes tza r s) v) s)
      else if u = lit ''Hours'' then
        Some (\<lambda>tza r v s. setHours tza r (addN (getHours tza r s) v) s)
      else if u = lit ''Days'' then
        Some (\<lambda>tza r v s. setDate tza r (addN (getDate tza r s) v) s)
      else if u = lit ''Weeks'' then
        Some (\<lambda>tza r v s. setDate tza r (addN (getDate tza r s) (mulN v (Fin 7))) s)
      else None)"
  by (simp add: expirationUnitsAndActions_def)

lemma computeExpiresAt_eq:
  "computeExpiresAt e u n s =
     (fresh s,
      s\<lparr>dates := (dates s)(fresh s := expiryValue (clock e) (localTZA e) u n),
        fresh := Suc (fresh s)\<rparr>)"
proof -
  define s1 where "s1 = s\<lparr>dates := (dates s)(fresh s := Fin (clock e)), fresh := Suc (fresh s)\<rparr>"
  have d: "dates s1 (fresh s) = Fin (clock e)"
    by (simp add: s1_def)
  have nd: "newDate (clock e) s = (fresh s, s1)"
    by (simp add: newDate_def s1_def)
  note adds = setMinutes_add [OF d] setHours_add [OF d] setDate_add [OF d]
  have "computeExpiresAt e u n s =
     (fresh s,
      case unitLength u of
        None \<Rightarrow> s1
      | Some len \<Rightarrow>
          if n \<noteq> 0
          then s1\<lparr>dates := (dates s1)(fresh s := calendarAdd (clock e) (localTZA e) (n * len))\<rparr>
          else s1)"
    unfolding computeExpiresAt_def nd updateExpiresAt_cases
    by (simp add: unitLength_def diff_units adds mult.assoc)
  then show ?thesis
    by (simp add: s1_def expiryValue_def split: option.split)
qed

section \<open>What a run of \<open>onFormSubmit\<close> does\<close>

lemma requestOf_eq:
  "requestOf e d s =
     \<lparr>encryptedValue = fst (encryptSymmetric e (value' d) (generateKey e)),
      iv = fst (snd (encryptSymmetric e (value' d) (generateKey e))),
      tag = snd (snd (encryptSymmetric e (value' d) (generateKey e))),
      hashedHex = hashKey e (generateKey e),
      expiresAt = expiryValue (clock e) (localTZA e) (expiresInUnit d) (expiresInValue d),
      expiresAfterViews = expiresAfterViews' d\<rparr>"
  by (simp add: requestOf_def computeExpiresAt_eq Let_def split: prod.split)

lemma encode_key: "encodeURIComponent (generateKey e) = Some (generateKey e)"
  by (simp add: generateKey_def encodeURIComponent_toHex)

lemma encode_hash: "encodeURIComponent (hashKey e k) = Some (hashKey e k)"
  by (simp add: hashKey_def encodeURIComponent_toHex)

lemma onFormSubmit_eq:
  assumes "\<not> falsy (currentOrgId e)"
  shows "onFormSubmit e d s =
     (let req = requestOf e d s;
          s3 = s\<lparr>dates := (dates s)(fresh s := expiresAt req), fresh := Suc (fresh s),
                 effects := effects s @ [Encrypt, Mutate req]\<rparr>
      in case mutateAsync e req of
           Inl responseStatus \<Rightarrow> catchBlock responseStatus s3
         | Inr ident \<Rightarrow>
             s3\<lparr>newSharedSecret :=
                  origin e @ lit ''/shared/secret/'' @ ident @ lit ''?key='' @
                  hashKey e (generateKey e) @ lit ''-'' @ generateKey e,
                effects := effects s3 @
                  [Notify (lit ''Successfully created a shared secret'') (lit ''success'')]\<rparr>)"
  using assms
  by (simp add: onFormSubmit_def requestOf_eq computeExpiresAt_eq encode_key encode_hash Let_def
      split: prod.split sum.split)

lemma effects_onFormSubmit:
  assumes "\<not> falsy (currentOrgId e)"
  shows "effects (onFormSubmit e d s) =
     effects s @ [Encrypt, Mutate (requestOf e d s)] @
     (case mutateAsync e (requestOf e d s) of
        Inl responseStatus \<Rightarrow>
          [ConsoleError,
           if responseStatus = Some 401
           then Notify (lit ''You do not have access to create shared secrets'') (lit ''error'')
           else Notify (lit ''Failed to create a shared secret'') (lit ''error'')]
      | Inr ident \<Rightarrow> [Notify (lit ''Successfully created a shared secret'') (lit ''success'')])"
  by (simp add: onFormSubmit_eq [OF assms] catchBlock_def Let_def split: sum.split)

lemma mutateArgs_onFormSubmit:
  assumes "\<not> falsy (currentOrgId e)"
  shows "mutateArgs (onFormSubmit e d s) = mutateArgs s @ [requestOf e d s]"
  by (simp add: mutateArgs_def effects_onFormSubmit [OF assms] split: sum.split)

lemma link_onFormSubmit:
  assumes "\<not> falsy (currentOrgId e)" and "mutateAsync e (requestOf e d s) = Inr ident"
  shows "newSharedSecret (onFormSubmit e d s) =
     origin e @ lit ''/shared/secret/'' @ ident @ lit ''?key='' @
     hashKey e (generateKey e) @ lit ''-'' @ generateKey e"
  using assms(2) by (simp add: onFormSubmit_eq [OF assms(1)] Let_def)

lemma onFormSubmit_no_org: "falsy (currentOrgId e) \<Longrightarrow> onFormSubmit e d s = s"
  by (simp add: onFormSubmit_def)


lemma set_generateKey: "set (generateKey e) \<subseteq> set hexDigits"
  by (simp add: generateKey_def set_toHex)

lemma set_hashKey: "set (hashKey e k) \<subseteq> set hexDigits"
  by (simp add: hashKey_def set_toHex)

section \<open>Key material and the share link\<close>

text \<open>
  Claim C1. In every creation the raw key is the hexadecimal text of 16 octets of the
  random source, 32 hexadecimal digits, and the verifier that is sent to the store is the
  hexadecimal text of the SHA-256 digest of the key (of the 32 octets of its characters,
  64 hexadecimal digits). The link of a successful creation carries this verifier and
  this key.
\<close>

theorem key_material:
  assumes "\<not> falsy (currentOrgId e)"
  shows "mutateArgs (onFormSubmit e d s) = mutateArgs s @ [requestOf e d s] \<and>
     length (randomBytes e 16) = 16 \<and>
     generateKey e = toHex (randomBytes e 16) \<and>
     length (generateKey e) = 32 \<and>
     set (generateKey e) \<subseteq> set hexDigits \<and>
     utf8Encode (generateKey e) = map ucast (generateKey e) \<and>
     hashedHex (requestOf e d s) =
       toHex (digestBytes (sha256 e (utf8Encode (generateKey e)))) \<and>
     length (hashedHex (requestOf e d s)) = 64 \<and>
     set (hashedHex (requestOf e d s)) \<subseteq> set hexDigits \<and>
     (case mutateAsync e (requestOf e d s) of
        Inl responseStatus \<Rightarrow> newSharedSecret (onFormSubmit e d s) = newSharedSecret s
      | Inr ident \<Rightarrow>
          newSharedSecret (onFormSubmit e d s) =
            origin e @ lit ''/shared/secret/'' @ ident @ lit ''?key='' @
            hashedHex (requestOf e d s) @ lit ''-'' @ generateKey e)"
proof -
  have c1: "mutateArgs (onFormSubmit e d s) = mutateArgs s @ [requestOf e d s]"
    by (rule mutateArgs_onFormSubmit [OF assms])
  have c2: "length (randomBytes e 16) = 16"
    by (rule length_randomBytes)
  have c3: "generateKey e = toHex (randomBytes e 16)"
    by (rule generateKey_def)
  have c4: "length (generateKey e) = 32"
    by (rule length_generateKey)
  have c5: "set (generateKey e) \<subseteq> set hexDigits"
    by (rule set_generateKey)
  have c6: "utf8Encode (generateKey e) = map ucast (generateKey e)"
    by (simp add: generateKey_def utf8Encode_toHex)
  have h: "hashedHex (requestOf e d s) = hashKey e (generateKey e)"
    by (simp add: requestOf_eq)
  have c7: "hashedHex (requestOf e d s) =
      toHex (digestBytes (sha256 e (utf8Encode (generateKey e))))"
    unfolding h by (rule hashKey_def)
  have c8: "length (hashedHex (requestOf e d s)) = 64"
    unfolding h by (rule length_hashKey)
  have c9: "set (hashedHex (requestOf e d s)) \<subseteq> set hexDigits"
    unfolding h by (rule set_hashKey)
  have c10: "case mutateAsync e (requestOf e d s) of
        Inl responseStatus \<Rightarrow> newSharedSecret (onFormSubmit e d s) = newSharedSecret s
      | Inr ident \<Rightarrow>
          newSharedSecret (onFormSubmit e d s) =
            origin e @ lit ''/shared/secret/'' @ ident @ lit ''?key='' @
            hashedHex (requestOf e d s) @ lit ''-'' @ generateKey e"
    unfolding h
    by (simp add: onFormSubmit_eq [OF assms] catchBlock_def Let_def split: sum.split)
  show ?thesis
    by (intro conjI) (rule c1 c2 c3 c4 c5 c6 c7 c8 c9 c10)+
qed

lemma generateKey_env0: "generateKey env0 = lit ''031425364758697a8b9cadbecfe0f102''"
  by code_simp

theorem key_material_witness:
  "\<not> falsy (currentOrgId env0) \<and>
   generateKey env0 = lit ''031425364758697a8b9cadbecfe0f102'' \<and>
   length (generateKey env0) = 32 \<and>
   mutateArgs (onFormSubmit env0 form0 state0) = [requestOf env0 form0 state0] \<and>
   hashedHex (requestOf env0 form0 state0) =
     toHex (digestBytes (sha256 env0 (utf8Encode (generateKey env0)))) \<and>
   length (hashedHex (requestOf env0 form0 state0)) = 64"
proof -
  have h: "\<not> falsy (currentOrgId env0)"
    by (simp add: env0_def falsy_def lit_def)
  note km = key_material [OF h, of form0 state0]
  have "mutateArgs state0 = []"
    by (simp add: mutateArgs_def state0_def)
  with km have m: "mutateArgs (onFormSubmit env0 form0 state0) = [requestOf env0 form0 state0]"
    by simp
  have l: "length (generateKey env0) = 32"
    using km by blast
  have v: "hashedHex (requestOf env0 form0 state0) =
      toHex (digestBytes (sha256 env0 (utf8Encode (generateKey env0))))"
    using km by blast
  have n: "length (hashedHex (requestOf env0 form0 state0)) = 64"
    using km by blast
  show ?thesis
    by (intro conjI) (rule h generateKey_env0 l m v n)+
qed

text \<open>
  Claim C2. The link of a successful creation is the origin, the path
  \<open>/shared/secret/\<close> with the \<open>id\<close> that the store returned, and the query
  parameter \<open>key\<close>, whose value is \<open>encodeURIComponent\<close> of the verifier, the
  separator \<open>-\<close> and \<open>encodeURIComponent\<close> of the raw key. Both are encoded
  on their own; both are hexadecimal text, which the encoding leaves as it is and in
  which the separator does not occur.
\<close>

theorem share_link_format:
  assumes "\<not> falsy (currentOrgId e)"
    and "mutateAsync e (requestOf e d s) = Inr ident"
  shows "\<exists>verifierPart keyPart.
     encodeURIComponent (hashedHex (requestOf e d s)) = Some verifierPart \<and>
     encodeURIComponent (generateKey e) = Some keyPart \<and>
     newSharedSecret (onFormSubmit e d s) =
       origin e @ lit ''/shared/secret/'' @ ident @ lit ''?key='' @
       verifierPart @ lit ''-'' @ keyPart \<and>
     verifierPart = hashedHex (requestOf e d s) \<and>
     keyPart = generateKey e \<and>
     lit ''-'' = [0x2D] \<and>
     0x2D \<notin> set verifierPart \<and>
     0x2D \<notin> set keyPart"
proof -
  have h: "hashedHex (requestOf e d s) = hashKey e (generateKey e)"
    by (simp add: requestOf_eq)
  have c1: "encodeURIComponent (hashedHex (requestOf e d s)) = Some (hashedHex (requestOf e d s))"
    unfolding h by (rule encode_hash)
  have c2: "encodeURIComponent (generateKey e) = Some (generateKey e)"
    by (rule encode_key)
  have c3: "newSharedSecret (onFormSubmit e d s) =
       origin e @ lit ''/shared/secret/'' @ ident @ lit ''?key='' @
       hashedHex (requestOf e d s) @ lit ''-'' @ generateKey e"
    unfolding h by (rule link_onFormSubmit [OF assms])
  have c4: "lit ''-'' = [0x2D]"
    using dash_not_hex by blast
  have c5: "0x2D \<notin> set (hashedHex (requestOf e d s))"
    unfolding h using dash_not_hex set_hashKey [of e "generateKey e"] by blast
  have c6: "0x2D \<notin> set (generateKey e)"
    using dash_not_hex set_generateKey [of e] by blast
  show ?thesis
    using c1 c2 c3 c4 c5 c6 by blast
qed

lemma requestOf_env0:
  "mutateAsync env0 (requestOf env0 form0 state0) = Inr (lit ''id7'')"
  by (simp add: env0_def)

theorem share_link_format_witness:
  "\<not> falsy (currentOrgId env0) \<and>
   mutateAsync env0 (requestOf env0 form0 state0) = Inr (lit ''id7'') \<and>
   newSharedSecret (onFormSubmit env0 form0 state0) =
     lit ''https://app.test/shared/secret/id7?key='' @ hashKey env0 (generateKey env0) @
     lit ''-031425364758697a8b9cadbecfe0f102''"
proof -
  have h: "\<not> falsy (currentOrgId env0)"
    by (simp add: env0_def falsy_def lit_def)
  have "hashedHex (requestOf env0 form0 state0) = hashKey env0 (generateKey env0)"
    by (simp add: requestOf_eq)
  with share_link_format [OF h requestOf_env0]
  have "newSharedSecret (onFormSubmit env0 form0 state0) =
       origin env0 @ lit ''/shared/secret/'' @ lit ''id7'' @ lit ''?key='' @
       hashKey env0 (generateKey env0) @ lit ''-'' @ generateKey env0"
    by auto
  then have l: "newSharedSecret (onFormSubmit env0 form0 state0) =
     lit ''https://app.test/shared/secret/id7?key='' @ hashKey env0 (generateKey env0) @
     lit ''-031425364758697a8b9cadbecfe0f102''"
    unfolding generateKey_env0 by (simp add: env0_def lit_def)
  show ?thesis
    by (intro conjI) (rule h requestOf_env0 l)+
qed

section \<open>What reaches the store\<close>

text \<open>
  Claim C3. The object passed to \<open>createSharedSecret.mutateAsync\<close> consists of the
  three outputs of \<open>encryptSymmetric\<close>, the verifier, the expiry and the number of
  views: neither the raw key nor the plaintext is a part of it, and the verifier differs
  from the key. The other calls of a run are the encryption and notifications with fixed
  texts; the key leaves the run in the link only. The object depends on the key and the
  plaintext through the outputs of \<open>encryptSymmetric\<close> and the verifier alone: a run
  with another key or plaintext that has the same outputs, verifier, clock, time zone,
  unit, value and views sends the same object.
\<close>

theorem transmitted_data:
  assumes "\<not> falsy (currentOrgId e)"
    and "encryptSymmetric e (value' d) (generateKey e) = (ciphertext, iv', tag')"
  shows "effects (onFormSubmit e d s) =
     effects s @
     [Encrypt,
      Mutate \<lparr>encryptedValue = ciphertext, iv = iv', tag = tag',
              hashedHex = hashKey e (generateKey e),
              expiresAt = expiryValue (clock e) (localTZA e) (expiresInUnit d) (expiresInValue d),
              expiresAfterViews = expiresAfterViews' d\<rparr>] @
     (case mutateAsync e (requestOf e d s) of
        Inl responseStatus \<Rightarrow>
          [ConsoleError,
           if responseStatus = Some 401
           then Notify (lit ''You do not have access to create shared secrets'') (lit ''error'')
           else Notify (lit ''Failed to create a shared secret'') (lit ''error'')]
      | Inr ident \<Rightarrow> [Notify (lit ''Successfully created a shared secret'') (lit ''success'')]) \<and>
     hashKey e (generateKey e) \<noteq> generateKey e \<and>
     (case mutateAsync e (requestOf e d s) of
        Inl responseStatus \<Rightarrow> newSharedSecret (onFormSubmit e d s) = newSharedSecret s
      | Inr ident \<Rightarrow>
          newSharedSecret (onFormSubmit e d s) =
            origin e @ lit ''/shared/secret/'' @ ident @ lit ''?key='' @
            hashKey e (generateKey e) @ lit ''-'' @ generateKey e) \<and>
     (\<forall>e' d' s'.
        encryptSymmetric e' (value' d') (generateKey e') = (ciphertext, iv', tag') \<and>
        hashKey e' (generateKey e') = hashKey e (generateKey e) \<and>
        clock e' = clock e \<and> localTZA e' = localTZA e \<and>
        expiresInUnit d' = expiresInUnit d \<and> expiresInValue d' = expiresInValue d \<and>
        expiresAfterViews' d' = expiresAfterViews' d \<longrightarrow>
        requestOf e' d' s' = requestOf e d s)"
proof -
  have r: "requestOf e d s =
      \<lparr>encryptedValue = ciphertext, iv = iv', tag = tag',
       hashedHex = hashKey e (generateKey e),
       expiresAt = expiryValue (clock e) (localTZA e) (expiresInUnit d) (expiresInValue d),
       expiresAfterViews = expiresAfterViews' d\<rparr>"
    by (simp add: requestOf_eq assms(2))
  have c1: "effects (onFormSubmit e d s) =
     effects s @
     [Encrypt,
      Mutate \<lparr>encryptedValue = ciphertext, iv = iv', tag = tag',
              hashedHex = hashKey e (generateKey e),
              expiresAt = expiryValue (clock e) (localTZA e) (expiresInUnit d) (expiresInValue d),
              expiresAfterViews = expiresAfterViews' d\<rparr>] @
     (case mutateAsync e (requestOf e d s) of
        Inl responseStatus \<Rightarrow>
          [ConsoleError,
           if responseStatus = Some 401
           then Notify (lit ''You do not have access to create shared secrets'') (lit ''error'')
           else Notify (lit ''Failed to create a shared secret'') (lit ''error'')]
      | Inr ident \<Rightarrow> [Notify (lit ''Successfully created a shared secret'') (lit ''success'')])"
    using effects_onFormSubmit [OF assms(1), of d s] unfolding r by simp
  have "length (hashKey e (generateKey e)) \<noteq> length (generateKey e)"
    by (simp add: length_hashKey length_generateKey)
  then have c2: "hashKey e (generateKey e) \<noteq> generateKey e"
    by auto
  have c3: "case mutateAsync e (requestOf e d s) of
        Inl responseStatus \<Rightarrow> newSharedSecret (onFormSubmit e d s) = newSharedSecret s
      | Inr ident \<Rightarrow>
          newSharedSecret (onFormSubmit e d s) =
            origin e @ lit ''/shared/secret/'' @ ident @ lit ''?key='' @
            hashKey e (generateKey e) @ lit ''-'' @ generateKey e"
    by (simp add: onFormSubmit_eq [OF assms(1)] catchBlock_def Let_def split: sum.split)
  have c4: "\<forall>e' d' s'.
        encryptSymmetric e' (value' d') (generateKey e') = (ciphertext, iv', tag') \<and>
        hashKey e' (generateKey e') = hashKey e (generateKey e) \<and>
        clock e' = clock e \<and> localTZA e' = localTZA e \<and>
        expiresInUnit d' = expiresInUnit d \<and> expiresInValue d' = expiresInValue d \<and>
        expiresAfterViews' d' = expiresAfterViews' d \<longrightarrow>
        requestOf e' d' s' = requestOf e d s"
    by (simp add: requestOf_eq assms(2))
  show ?thesis
    by (intro conjI) (rule c1 c2 c3 c4)+
qed

theorem transmitted_data_witness:
  "\<not> falsy (currentOrgId env0) \<and>
   encryptSymmetric env0 (value' form0) (generateKey env0) = (lit ''ct'', lit ''iv'', lit ''tg'') \<and>
   effects (onFormSubmit env0 form0 state0) =
     [Encrypt,
      Mutate \<lparr>encryptedValue = lit ''ct'', iv = lit ''iv'', tag = lit ''tg'',
              hashedHex = hashKey env0 (generateKey env0),
              expiresAt = Fin 1732017600000,
              expiresAfterViews = 1\<rparr>,
      Notify (lit ''Successfully created a shared secret'') (lit ''success'')]"
proof -
  have h: "\<not> falsy (currentOrgId env0)"
    by (simp add: env0_def falsy_def lit_def)
  have c: "encryptSymmetric env0 (value' form0) (generateKey env0) =
      (lit ''ct'', lit ''iv'', lit ''tg'')"
    by (simp add: env0_def)
  have x: "expiryValue (clock env0) (localTZA env0) (expiresInUnit form0) (expiresInValue form0) =
      Fin 1732017600000"
    by (simp add: expiryValue_def unitLength_def calendarAdd_def LocalTime_def UTC_def
        TimeClip_def maxTime_def msPerDay_def env0_def form0_def lit_def)
  have e: "effects (onFormSubmit env0 form0 state0) =
     [Encrypt,
      Mutate \<lparr>encryptedValue = lit ''ct'', iv = lit ''iv'', tag = lit ''tg'',
              hashedHex = hashKey env0 (generateKey env0),
              expiresAt = Fin 1732017600000,
              expiresAfterViews = 1\<rparr>,
      Notify (lit ''Successfully created a shared secret'') (lit ''success'')]"
    using transmitted_data [OF h c, of state0, THEN conjunct1] unfolding x requestOf_env0
    by (simp add: state0_def form0_def)
  show ?thesis
    by (intro conjI) (rule h c e)+
qed

section \<open>The schema\<close>

lemma stringErrors_Nil:
  "stringErrors p m v = [] \<longleftrightarrow>
     (\<exists>str. v = Some str \<and> str \<noteq> [] \<and> (case m of None \<Rightarrow> True | Some n \<Rightarrow> length str \<le> n))"
  by (auto simp: stringErrors_def split: option.splits)

lemma numberErrors_Nil: "numberErrors p m v = [] \<longleftrightarrow> (\<exists>n. v = Number n \<and> m \<le> n)"
  by (auto simp: numberErrors_def split: numberInput.splits)

lemma schema_Inr:
  "schema fv = Inr d \<longleftrightarrow>
     schemaErrors fv = [] \<and> fieldValue fv = Some (value' d) \<and>
     fieldExpiresAfterViews fv = Number (expiresAfterViews' d) \<and>
     fieldExpiresInValue fv = Number (expiresInValue d) \<and>
     fieldExpiresInUnit fv = Some (expiresInUnit d)"
  by (cases d) (auto simp: schema_def split: list.splits option.splits numberInput.splits)

lemma schema_Inl: "schema fv = Inl errs \<longleftrightarrow> errs = schemaErrors fv \<and> schemaErrors fv \<noteq> []"
proof (cases "schemaErrors fv = []")
  case True
  then obtain v views n u where
    "fieldValue fv = Some v" "fieldExpiresAfterViews fv = Number views"
    "fieldExpiresInValue fv = Number n" "fieldExpiresInUnit fv = Some u"
    unfolding schemaErrors_def by (auto simp: stringErrors_Nil numberErrors_Nil)
  with True show ?thesis
    by (simp add: schema_def)
next
  case False
  then show ?thesis
    by (auto simp: schema_def split: list.splits option.splits numberInput.splits)
qed

lemma handleSubmit_invalid:
  assumes "schemaErrors fv \<noteq> []"
  shows "handleSubmit e fv s = (schemaErrors fv, s)"
proof -
  have "schema fv = Inl (schemaErrors fv)"
    using assms by (simp add: schema_Inl)
  then show ?thesis
    by (simp add: handleSubmit_def)
qed

lemma fst_handleSubmit: "fst (handleSubmit e fv s) = schemaErrors fv"
proof (cases "schema fv")
  case (Inl errs)
  then have "errs = schemaErrors fv"
    by (simp add: schema_Inl)
  with Inl show ?thesis
    by (simp add: handleSubmit_def)
next
  case (Inr d)
  then have "schemaErrors fv = []"
    by (simp add: schema_Inr)
  with Inr show ?thesis
    by (simp add: handleSubmit_def)
qed

lemma handleSubmit_valid: "schema fv = Inr d \<Longrightarrow> handleSubmit e fv s = ([], onFormSubmit e d s)"
  by (simp add: handleSubmit_def)

lemma schema_valid_bounds:
  assumes "schema fv = Inr d"
  shows "value' d \<noteq> [] \<and> length (value' d) \<le> 10000 \<and> 1 \<le> expiresAfterViews' d \<and>
     1 \<le> expiresInValue d \<and> expiresInUnit d \<noteq> []"
  using assms unfolding schema_Inr schemaErrors_def
  by (auto simp: stringErrors_Nil numberErrors_Nil)

section \<open>The expiry\<close>

lemma expiresAt_requestOf:
  "expiresAt (requestOf e d s) =
     expiryValue (clock e) (localTZA e) (expiresInUnit d) (expiresInValue d)"
  by (simp add: requestOf_eq)

lemma calendarAdd_in_range:
  assumes "local = LocalTime tza now + span" and "\<bar>local - tza local False\<bar> \<le> maxTime"
  shows "calendarAdd now tza span = Fin (local - tza local False)"
  using assms by (simp add: calendarAdd_def UTC_def TimeClip_def)

lemma calendarAdd_overflow:
  assumes "local = LocalTime tza now + span" and "\<bar>local - tza local False\<bar> > maxTime"
  shows "calendarAdd now tza span = NaN"
  using assms by (simp add: calendarAdd_def UTC_def TimeClip_def)

lemma add_days:
  "Day (t + n * msPerDay) = Day t + n \<and> TimeWithinDay (t + n * msPerDay) = TimeWithinDay t"
  by (simp add: Day_def TimeWithinDay_def msPerDay_def)

lemma date_fields_name_day:
  "MakeDay (Fin (YearFromTime t)) (Fin (MonthFromTime t)) (Fin (DateFromTime t)) = Fin (Day t)"
  using MakeDay_of_date [of t 0] by simp

text \<open>
  Claim C4, as stated, fails in three ways. (1) For a large value: 100000000 days after
  the clock reading of the concrete run is a number, but it lies beyond the range of time
  values, and the \<open>Date\<close> that \<open>onFormSubmit\<close> sends is invalid. (2) For a local time
  that the clocks skip: in Berlin, one day after 2024-03-30 02:30 is 02:30 on the day on
  which the clocks go from 02:00 to 03:00, and the expiry that is sent has the local time
  of day 03:30, not that of the clock reading. (3) For a local time that the clocks show
  twice: in Berlin, 10 minutes after the second 02:30 of 2024-10-27 the expiry that is
  sent is the first 02:40 of that day, 50 minutes before the clock reading.
\<close>

theorem expiry_counterexample:
  "unitLength (lit ''Days'') = Some msPerDay \<and>
   unitLength (lit ''Minutes'') = Some msPerMinute \<and>
   (1::int) \<le> 100000000 \<and>
   UTC (localTZA env0) (Fin (LocalTime (localTZA env0) (clock env0) + 100000000 * msPerDay)) =
     Fin 8641729425600000 \<and>
   expiresAt (requestOf env0 (form0\<lparr>expiresInValue := 100000000\<rparr>) state0) = NaN \<and>
   expiresAt (requestOf (envBerlin\<lparr>clock := 1711762200000\<rparr>)
     (form0\<lparr>expiresInValue := 1\<rparr>) state0) = Fin 1711848600000 \<and>
   TimeWithinDay (LocalTime berlin2024 1711762200000) = 9000000 \<and>
   TimeWithinDay (LocalTime berlin2024 1711848600000) = 12600000 \<and>
   expiresAt (requestOf (envBerlin\<lparr>clock := 1729992600000\<rparr>)
     (form0\<lparr>expiresInValue := 10, expiresInUnit := lit ''Minutes''\<rparr>) state0) =
     Fin 1729989600000 \<and>
   (1729989600000::int) < 1729992600000"
proof -
  have a: "unitLength (lit ''Days'') = Some msPerDay"
    and b: "unitLength (lit ''Minutes'') = Some msPerMinute"
    by (simp_all add: unitLength_def lit_def)
  have c: "(1::int) \<le> 100000000"
    by simp
  have d: "UTC (localTZA env0)
      (Fin (LocalTime (localTZA env0) (clock env0) + 100000000 * msPerDay)) =
      Fin 8641729425600000"
    by (simp add: LocalTime_def UTC_def msPerDay_def env0_def)
  have f: "expiresAt (requestOf env0 (form0\<lparr>expiresInValue := 100000000\<rparr>) state0) = NaN"
    by (simp add: expiresAt_requestOf expiryValue_def unitLength_def calendarAdd_def
        LocalTime_def UTC_def TimeClip_def maxTime_def msPerDay_def env0_def form0_def lit_def)
  have g: "expiresAt (requestOf (envBerlin\<lparr>clock := 1711762200000\<rparr>)
      (form0\<lparr>expiresInValue := 1\<rparr>) state0) = Fin 1711848600000"
    by (simp add: expiresAt_requestOf expiryValue_def unitLength_def calendarAdd_def
        LocalTime_def UTC_def TimeClip_def maxTime_def msPerDay_def envBerlin_def berlin2024_def
        env0_def form0_def lit_def)
  have h: "TimeWithinDay (LocalTime berlin2024 1711762200000) = 9000000"
    and i: "TimeWithinDay (LocalTime berlin2024 1711848600000) = 12600000"
    by (simp_all add: TimeWithinDay_def LocalTime_def berlin2024_def msPerDay_def)
  have j: "expiresAt (requestOf (envBerlin\<lparr>clock := 1729992600000\<rparr>)
      (form0\<lparr>expiresInValue := 10, expiresInUnit := lit ''Minutes''\<rparr>) state0) =
      Fin 1729989600000"
    by (simp add: expiresAt_requestOf expiryValue_def unitLength_def calendarAdd_def
        LocalTime_def UTC_def TimeClip_def maxTime_def msPerMinute_def envBerlin_def
        berlin2024_def env0_def form0_def lit_def)
  have k: "(1729989600000::int) < 1729992600000"
    by simp
  show ?thesis
    by (intro conjI) (rule a b c d f g h i j k)+
qed

text \<open>
  Claim C4, amended. For a recognised unit, a value of at least 1 and a clock reading
  after 1970, let \<open>local\<close> be the local time of the clock reading plus the value times
  the length of the unit. When \<open>local\<close> is the local time of exactly one time value,
  the one that \<open>Date\<close> takes for it, and this time value lies within the range of
  \<open>Date\<close>, the expiry that is sent is this time value. Its local time is \<open>local\<close>.
  It lies after the clock reading by the value times the length of the unit, plus the
  offset of the time zone at the clock reading, minus the offset at the expiry. For
  \<open>Days\<close> and \<open>Weeks\<close> its local date, by year, month and day of the month, is the
  calendar day \<open>value\<close> or \<open>7 * value\<close> days after the local date of the clock
  reading, and its local time of day is that of the clock reading.
\<close>

theorem expiry_calendar:
  assumes "unitLength (expiresInUnit d) = Some len"
    and "1 \<le> expiresInValue d"
    and "0 \<le> clock e"
    and "local = LocalTime (localTZA e) (clock e) + expiresInValue d * len"
    and "LocalTime (localTZA e) (local - localTZA e local False) = local"
    and "\<forall>v. LocalTime (localTZA e) v = local \<longrightarrow> v = local - localTZA e local False"
    and "\<bar>local - localTZA e local False\<bar> \<le> maxTime"
  shows "\<exists>t. expiresAt (requestOf e d s) = Fin t \<and>
     LocalTime (localTZA e) t =
       LocalTime (localTZA e) (clock e) + expiresInValue d * len \<and>
     (\<forall>v. LocalTime (localTZA e) v = LocalTime (localTZA e) t \<longrightarrow> v = t) \<and>
     t = clock e + expiresInValue d * len +
         (localTZA e (clock e) True - localTZA e t True) \<and>
     (len = msPerMinute) = (expiresInUnit d = lit ''Minutes'') \<and>
     (len = msPerHour) = (expiresInUnit d = lit ''Hours'') \<and>
     (len = msPerDay) = (expiresInUnit d = lit ''Days'') \<and>
     (len = 7 * msPerDay) = (expiresInUnit d = lit ''Weeks'') \<and>
     (expiresInUnit d = lit ''Days'' \<longrightarrow>
        MakeDay (Fin (YearFromTime (LocalTime (localTZA e) t)))
          (Fin (MonthFromTime (LocalTime (localTZA e) t)))
          (Fin (DateFromTime (LocalTime (localTZA e) t))) =
        Fin (Day (LocalTime (localTZA e) (clock e)) + expiresInValue d) \<and>
        TimeWithinDay (LocalTime (localTZA e) t) =
        TimeWithinDay (LocalTime (localTZA e) (clock e))) \<and>
     (expiresInUnit d = lit ''Weeks'' \<longrightarrow>
        MakeDay (Fin (YearFromTime (LocalTime (localTZA e) t)))
          (Fin (MonthFromTime (LocalTime (localTZA e) t)))
          (Fin (DateFromTime (LocalTime (localTZA e) t))) =
        Fin (Day (LocalTime (localTZA e) (clock e)) + 7 * expiresInValue d) \<and>
        TimeWithinDay (LocalTime (localTZA e) t) =
        TimeWithinDay (LocalTime (localTZA e) (clock e)))"
proof -
  define t where "t = local - localTZA e local False"
  define nowLocal where "nowLocal = LocalTime (localTZA e) (clock e)"
  have n: "expiresInValue d \<noteq> 0"
    using assms(2) by simp
  have c1: "expiresAt (requestOf e d s) = Fin t"
    using calendarAdd_in_range [OF assms(4,7)] n assms(1)
    by (simp add: expiresAt_requestOf expiryValue_def t_def)
  have lt: "LocalTime (localTZA e) t = local"
    using assms(5) by (simp add: t_def)
  have c2: "LocalTime (localTZA e) t = nowLocal + expiresInValue d * len"
    using lt assms(4) by (simp add: nowLocal_def)
  have c3: "\<forall>v. LocalTime (localTZA e) v = LocalTime (localTZA e) t \<longrightarrow> v = t"
    unfolding lt by (rule assms(6) [folded t_def])
  have c4: "t = clock e + expiresInValue d * len +
      (localTZA e (clock e) True - localTZA e t True)"
    using c2 by (simp add: LocalTime_def nowLocal_def)
  have u: "(len = msPerMinute) = (expiresInUnit d = lit ''Minutes'')"
    "(len = msPerHour) = (expiresInUnit d = lit ''Hours'')"
    "(len = msPerDay) = (expiresInUnit d = lit ''Days'')"
    "(len = 7 * msPerDay) = (expiresInUnit d = lit ''Weeks'')"
    using assms(1)
    by (auto simp: unitLength_def msPerMinute_def msPerHour_def msPerDay_def diff_units
        split: if_splits)
  have days: "MakeDay (Fin (YearFromTime (LocalTime (localTZA e) t)))
          (Fin (MonthFromTime (LocalTime (localTZA e) t)))
          (Fin (DateFromTime (LocalTime (localTZA e) t))) =
        Fin (Day nowLocal + k * expiresInValue d) \<and>
        TimeWithinDay (LocalTime (localTZA e) t) = TimeWithinDay nowLocal"
    if "len = k * msPerDay" for k
  proof -
    have "LocalTime (localTZA e) t = nowLocal + (k * expiresInValue d) * msPerDay"
      using c2 that by simp
    then have "Day (LocalTime (localTZA e) t) = Day nowLocal + k * expiresInValue d"
      and "TimeWithinDay (LocalTime (localTZA e) t) = TimeWithinDay nowLocal"
      using add_days [of nowLocal "k * expiresInValue d"] by simp_all
    then show ?thesis
      using date_fields_name_day [of "LocalTime (localTZA e) t"] by simp
  qed
  have c9: "expiresInUnit d = lit ''Days'' \<longrightarrow>
        MakeDay (Fin (YearFromTime (LocalTime (localTZA e) t)))
          (Fin (MonthFromTime (LocalTime (localTZA e) t)))
          (Fin (DateFromTime (LocalTime (localTZA e) t))) =
        Fin (Day nowLocal + expiresInValue d) \<and>
        TimeWithinDay (LocalTime (localTZA e) t) = TimeWithinDay nowLocal"
    using days [of 1] u(3) by simp
  have c10: "expiresInUnit d = lit ''Weeks'' \<longrightarrow>
        MakeDay (Fin (YearFromTime (LocalTime (localTZA e) t)))
          (Fin (MonthFromTime (LocalTime (localTZA e) t)))
          (Fin (DateFromTime (LocalTime (localTZA e) t))) =
        Fin (Day nowLocal + 7 * expiresInValue d) \<and>
        TimeWithinDay (LocalTime (localTZA e) t) = TimeWithinDay nowLocal"
    using days [of 7] u(4) by simp
  show ?thesis
    unfolding nowLocal_def [symmetric]
    by (intro exI [of _ t] conjI) (rule c1 c2 c3 c4 u c9 c10)+
qed

lemma berlin_date_of_20_Oct: "(YearFromTime 1729432800000, MonthFromTime 1729432800000,
    DateFromTime 1729432800000, HourFromTime 1729432800000) = (2024, 9, 20, 14)"
  by code_simp

lemma berlin_date_of_19_Nov: "(YearFromTime 1732024800000, MonthFromTime 1732024800000,
    DateFromTime 1732024800000, HourFromTime 1732024800000) = (2024, 10, 19, 14)"
  by code_simp

theorem expiry_calendar_witness:
  "unitLength (expiresInUnit form0) = Some msPerDay \<and>
   1 \<le> expiresInValue form0 \<and>
   0 \<le> clock envBerlin \<and>
   LocalTime (localTZA envBerlin) (clock envBerlin) = 1729432800000 \<and>
   1732024800000 =
     LocalTime (localTZA envBerlin) (clock envBerlin) + expiresInValue form0 * msPerDay \<and>
   1732024800000 - localTZA envBerlin 1732024800000 False = 1732021200000 \<and>
   {v. LocalTime (localTZA envBerlin) v = 1732024800000} = {1732021200000} \<and>
   \<bar>1732021200000\<bar> \<le> maxTime \<and>
   expiresAt (requestOf envBerlin form0 state0) = Fin 1732021200000 \<and>
   1732021200000 = clock envBerlin + 30 * msPerDay + msPerHour \<and>
   (YearFromTime 1729432800000, MonthFromTime 1729432800000,
    DateFromTime 1729432800000, HourFromTime 1729432800000) = (2024, 9, 20, 14) \<and>
   (YearFromTime 1732024800000, MonthFromTime 1732024800000,
    DateFromTime 1732024800000, HourFromTime 1732024800000) = (2024, 10, 19, 14)"
proof -
  have tz: "localTZA envBerlin = berlin2024"
    by (simp add: envBerlin_def)
  have ck: "clock envBerlin = 1729425600000"
    by (simp add: envBerlin_def env0_def)
  have a: "unitLength (expiresInUnit form0) = Some msPerDay"
    by (simp add: unitLength_def form0_def lit_def)
  have b: "1 \<le> expiresInValue form0"
    by (simp add: form0_def)
  have c: "0 \<le> clock envBerlin"
    by (simp add: ck)
  have l: "LocalTime (localTZA envBerlin) (clock envBerlin) = 1729432800000"
    by (simp add: tz ck LocalTime_def berlin2024_def)
  have d: "1732024800000 =
      LocalTime (localTZA envBerlin) (clock envBerlin) + expiresInValue form0 * msPerDay"
    by (simp add: l form0_def msPerDay_def)
  have u: "1732024800000 - localTZA envBerlin 1732024800000 False = 1732021200000"
    by (simp add: tz berlin2024_def)
  have r: "LocalTime (localTZA envBerlin)
      (1732024800000 - localTZA envBerlin 1732024800000 False) = 1732024800000"
    by (simp add: tz LocalTime_def berlin2024_def)
  have q: "\<forall>v. LocalTime (localTZA envBerlin) v = 1732024800000 \<longrightarrow>
      v = 1732024800000 - localTZA envBerlin 1732024800000 False"
    by (auto simp: tz LocalTime_def berlin2024_def split: if_splits)
  have "(LocalTime (localTZA envBerlin) v = 1732024800000) = (v = 1732021200000)" for v
    by (auto simp: tz LocalTime_def berlin2024_def split: if_splits)
  then have s: "{v. LocalTime (localTZA envBerlin) v = 1732024800000} = {1732021200000}"
    by simp
  have m: "\<bar>1732021200000\<bar> \<le> maxTime"
    by (simp add: maxTime_def)
  have m': "\<bar>1732024800000 - localTZA envBerlin 1732024800000 False\<bar> \<le> maxTime"
    unfolding u by (rule m)
  from expiry_calendar [OF a b c d r q m', of state0] obtain t where
    "expiresAt (requestOf envBerlin form0 state0) = Fin t"
    and "LocalTime (localTZA envBerlin) t =
      LocalTime (localTZA envBerlin) (clock envBerlin) + expiresInValue form0 * msPerDay"
    by blast
  moreover from this have "t = 1732021200000"
    using q d u by metis
  ultimately have x: "expiresAt (requestOf envBerlin form0 state0) = Fin 1732021200000"
    by simp
  have y: "1732021200000 = clock envBerlin + 30 * msPerDay + msPerHour"
    by (simp add: ck msPerDay_def msPerHour_def)
  show ?thesis
    by (intro conjI) (rule a b c l d u s m x y berlin_date_of_20_Oct berlin_date_of_19_Nov)+
qed

section \<open>Unrecognised units and invalid numbers\<close>

lemma Months_unknown: "unitLength (lit ''Months'') = None"
  by (simp add: unitLength_def lit_def)

lemma unitLength_None:
  "unitLength u = None \<longleftrightarrow>
     u \<notin> {lit ''Minutes'', lit ''Hours'', lit ''Days'', lit ''Weeks''}"
  by (simp add: unitLength_def)

text \<open>
  Claim C5, as stated, fails: a unit outside the four, here \<open>Months\<close>, raises no
  error. The schema accepts the form, the request is sent, and its expiry is the clock
  reading of the submission.
\<close>

theorem unknown_unit_counterexample:
  "lit ''Months'' \<notin> {lit ''Minutes'', lit ''Hours'', lit ''Days'', lit ''Weeks''} \<and>
   fst (handleSubmit env0 (fields0\<lparr>fieldExpiresInUnit := Some (lit ''Months'')\<rparr>) state0) = [] \<and>
   map expiresAt
     (mutateArgs (snd (handleSubmit env0
        (fields0\<lparr>fieldExpiresInUnit := Some (lit ''Months'')\<rparr>) state0))) =
     [Fin (clock env0)]"
proof -
  define fv where "fv = fields0\<lparr>fieldExpiresInUnit := Some (lit ''Months'')\<rparr>"
  define d where "d = form0\<lparr>expiresInUnit := lit ''Months''\<rparr>"
  have u: "lit ''Months'' \<notin> {lit ''Minutes'', lit ''Hours'', lit ''Days'', lit ''Weeks''}"
    using Months_unknown by (simp add: unitLength_None)
  have "schemaErrors fv = []"
    by (simp add: fv_def fields0_def schemaErrors_def stringErrors_def numberErrors_def lit_def)
  then have v: "schema fv = Inr d"
    by (simp add: schema_Inr fv_def d_def fields0_def form0_def)
  have h: "\<not> falsy (currentOrgId env0)"
    by (simp add: env0_def falsy_def lit_def)
  have "mutateArgs state0 = []"
    by (simp add: mutateArgs_def state0_def)
  then have m: "mutateArgs (onFormSubmit env0 d state0) = [requestOf env0 d state0]"
    using mutateArgs_onFormSubmit [OF h, of d state0] by simp
  have x: "expiresAt (requestOf env0 d state0) = Fin (clock env0)"
    by (simp add: expiresAt_requestOf expiryValue_def d_def Months_unknown)
  show ?thesis
    using u m x by (simp add: handleSubmit_valid [OF v] flip: fv_def)
qed

text \<open>
  Claim C5, amended. The schema raises an error for the unit exactly when the unit is
  absent or empty (the test \<open>required\<close>). A form whose unit is any other text outside
  the four is submitted without error: no action is applied and the expiry that is sent
  is the clock reading of the submission.
\<close>

theorem unknown_unit_keeps_now:
  "(\<exists>t. (PathExpiresInUnit, t) \<in> set (fst (handleSubmit e fv s))) =
     falsy (fieldExpiresInUnit fv) \<and>
   (\<forall>d. schema fv = Inr d \<and>
        expiresInUnit d \<notin> {lit ''Minutes'', lit ''Hours'', lit ''Days'', lit ''Weeks''} \<longrightarrow>
        handleSubmit e fv s = ([], onFormSubmit e d s) \<and>
        expiresAt (requestOf e d s) = Fin (clock e))"
proof -
  have "(\<exists>t. (PathExpiresInUnit, t) \<in> set (schemaErrors fv)) = falsy (fieldExpiresInUnit fv)"
    by (auto simp: schemaErrors_def stringErrors_def numberErrors_def falsy_def
        split: option.splits numberInput.splits if_splits)
  then have c1: "(\<exists>t. (PathExpiresInUnit, t) \<in> set (fst (handleSubmit e fv s))) =
      falsy (fieldExpiresInUnit fv)"
    by (simp add: fst_handleSubmit)
  have c2: "\<forall>d. schema fv = Inr d \<and>
        expiresInUnit d \<notin> {lit ''Minutes'', lit ''Hours'', lit ''Days'', lit ''Weeks''} \<longrightarrow>
        handleSubmit e fv s = ([], onFormSubmit e d s) \<and>
        expiresAt (requestOf e d s) = Fin (clock e)"
  proof (intro allI impI conjI)
    fix d
    assume a: "schema fv = Inr d \<and>
        expiresInUnit d \<notin> {lit ''Minutes'', lit ''Hours'', lit ''Days'', lit ''Weeks''}"
    then show "handleSubmit e fv s = ([], onFormSubmit e d s)"
      by (simp add: handleSubmit_valid)
    from a have "unitLength (expiresInUnit d) = None"
      by (simp add: unitLength_None)
    then show "expiresAt (requestOf e d s) = Fin (clock e)"
      by (simp add: expiresAt_requestOf expiryValue_def)
  qed
  show ?thesis
    using c1 c2 by (rule conjI)
qed

theorem unknown_unit_keeps_now_witness:
  "schema (fields0\<lparr>fieldExpiresInUnit := Some (lit ''Months'')\<rparr>) =
     Inr (form0\<lparr>expiresInUnit := lit ''Months''\<rparr>) \<and>
   expiresInUnit (form0\<lparr>expiresInUnit := lit ''Months''\<rparr>)
     \<notin> {lit ''Minutes'', lit ''Hours'', lit ''Days'', lit ''Weeks''} \<and>
   \<not> falsy (fieldExpiresInUnit (fields0\<lparr>fieldExpiresInUnit := Some (lit ''Months'')\<rparr>)) \<and>
   handleSubmit env0 (fields0\<lparr>fieldExpiresInUnit := Some (lit ''Months'')\<rparr>) state0 =
     ([], onFormSubmit env0 (form0\<lparr>expiresInUnit := lit ''Months''\<rparr>) state0) \<and>
   expiresAt (requestOf env0 (form0\<lparr>expiresInUnit := lit ''Months''\<rparr>) state0) =
     Fin 1729425600000"
proof -
  define fv where "fv = fields0\<lparr>fieldExpiresInUnit := Some (lit ''Months'')\<rparr>"
  define d where "d = form0\<lparr>expiresInUnit := lit ''Months''\<rparr>"
  have "schemaErrors fv = []"
    by (simp add: fv_def fields0_def schemaErrors_def stringErrors_def numberErrors_def lit_def)
  then have v: "schema fv = Inr d"
    by (simp add: schema_Inr fv_def d_def fields0_def form0_def)
  have u: "expiresInUnit d \<notin> {lit ''Minutes'', lit ''Hours'', lit ''Days'', lit ''Weeks''}"
    using Months_unknown by (simp add: unitLength_None d_def)
  have f: "\<not> falsy (fieldExpiresInUnit fv)"
    by (simp add: fv_def falsy_def lit_def)
  have "handleSubmit env0 fv state0 = ([], onFormSubmit env0 d state0) \<and>
      expiresAt (requestOf env0 d state0) = Fin (clock env0)"
    using unknown_unit_keeps_now [of env0 fv state0] v u by blast
  then have r: "handleSubmit env0 fv state0 = ([], onFormSubmit env0 d state0)"
    and x: "expiresAt (requestOf env0 d state0) = Fin 1729425600000"
    by (simp_all add: env0_def)
  show ?thesis
    unfolding fv_def [symmetric] d_def [symmetric] by (intro conjI) (rule v u f r x)+
qed

text \<open>
  Claim C6. A form whose expiration value is absent, not a number, or a number below 1
  is rejected with a validation error at the expiration value, and \<open>onFormSubmit\<close> is
  not called: nothing is sent, so no expiry is produced, neither null nor any other. The
  form has no choice of a limit by views alone.
\<close>

theorem invalid_expiration_value:
  assumes "fieldExpiresInValue fv = Undefined \<or> fieldExpiresInValue fv = NotANumber \<or>
     (\<exists>n. fieldExpiresInValue fv = Number n \<and> n \<le> 0)"
  shows "(\<exists>t. (PathExpiresInValue, t) \<in> set (fst (handleSubmit e fv s))) \<and>
     snd (handleSubmit e fv s) = s \<and>
     mutateArgs (snd (handleSubmit e fv s)) = mutateArgs s"
proof -
  have "\<exists>t. (PathExpiresInValue, t) \<in> set (schemaErrors fv)"
    using assms by (auto simp: schemaErrors_def numberErrors_def)
  moreover from this have "schemaErrors fv \<noteq> []"
    by auto
  ultimately show ?thesis
    by (simp add: handleSubmit_invalid)
qed

theorem invalid_expiration_value_witness:
  "fieldExpiresInValue (fields0\<lparr>fieldExpiresInValue := Number 0\<rparr>) = Number 0 \<and>
   (0::int) \<le> 0 \<and>
   handleSubmit env0 (fields0\<lparr>fieldExpiresInValue := Number 0\<rparr>) state0 =
     ([(PathExpiresInValue, MinTest)], state0)"
proof -
  define fv where "fv = fields0\<lparr>fieldExpiresInValue := Number 0\<rparr>"
  have a: "fieldExpiresInValue fv = Number 0"
    by (simp add: fv_def)
  then have "snd (handleSubmit env0 fv state0) = state0"
    using invalid_expiration_value [of fv env0 state0] by simp
  moreover have "fst (handleSubmit env0 fv state0) = [(PathExpiresInValue, MinTest)]"
    by (simp add: fst_handleSubmit fv_def fields0_def schemaErrors_def stringErrors_def
        numberErrors_def lit_def)
  ultimately have r: "handleSubmit env0 fv state0 = ([(PathExpiresInValue, MinTest)], state0)"
    by (simp add: prod_eq_iff)
  show ?thesis
    using a r by (simp add: fv_def)
qed

text \<open>
  Claim C7. A plaintext of more than 10000 code units is rejected by the schema with the
  error \<open>max\<close> at the field of the secret, and \<open>onFormSubmit\<close> is not called: the state
  is unchanged, nothing is encrypted or sent. A plaintext of at most 10000 code units
  passes this test.
\<close>

theorem plaintext_limit:
  assumes "fieldValue fv = Some v"
  shows "(if length v > 10000
      then (PathValue, MaxTest) \<in> set (fst (handleSubmit e fv s)) \<and>
           snd (handleSubmit e fv s) = s \<and>
           effects (snd (handleSubmit e fv s)) = effects s
      else (PathValue, MaxTest) \<notin> set (fst (handleSubmit e fv s)))"
proof (cases "length v > 10000")
  case True
  then have "(PathValue, MaxTest) \<in> set (schemaErrors fv)"
    using assms by (simp add: schemaErrors_def stringErrors_def)
  moreover from this have "schemaErrors fv \<noteq> []"
    by auto
  ultimately show ?thesis
    using True by (simp add: handleSubmit_invalid)
next
  case False
  then have "(PathValue, MaxTest) \<notin> set (schemaErrors fv)"
    using assms
    by (auto simp: schemaErrors_def stringErrors_def numberErrors_def
        split: option.splits numberInput.splits if_splits)
  then show ?thesis
    using False by (simp add: fst_handleSubmit)
qed

theorem plaintext_limit_witness:
  "fieldValue (fields0\<lparr>fieldValue := Some (replicate 10001 0x61)\<rparr>) =
     Some (replicate 10001 0x61) \<and>
   length (replicate 10001 (0x61 :: jschar)) > 10000 \<and>
   handleSubmit env0 (fields0\<lparr>fieldValue := Some (replicate 10001 0x61)\<rparr>) state0 =
     ([(PathValue, MaxTest)], state0) \<and>
   fieldValue fields0 = Some (lit ''hello'') \<and>
   \<not> length (lit ''hello'') > 10000 \<and>
   (PathValue, MaxTest) \<notin> set (fst (handleSubmit env0 fields0 state0))"
proof -
  define fv where "fv = fields0\<lparr>fieldValue := Some (replicate 10001 0x61)\<rparr>"
  have a: "fieldValue fv = Some (replicate 10001 0x61)"
    by (simp add: fv_def)
  have b: "length (replicate 10001 (0x61 :: jschar)) > 10000"
    by simp
  have "snd (handleSubmit env0 fv state0) = state0"
    using plaintext_limit [OF a, of env0 state0] b by simp
  moreover have "fst (handleSubmit env0 fv state0) = [(PathValue, MaxTest)]"
    by (simp add: fst_handleSubmit fv_def fields0_def schemaErrors_def stringErrors_def
        numberErrors_def lit_def)
  ultimately have c: "handleSubmit env0 fv state0 = ([(PathValue, MaxTest)], state0)"
    by (simp add: prod_eq_iff)
  have d: "fieldValue fields0 = Some (lit ''hello'')"
    by (simp add: fields0_def)
  have e: "\<not> length (lit ''hello'') > 10000"
    by (simp add: lit_def)
  have f: "(PathValue, MaxTest) \<notin> set (fst (handleSubmit env0 fields0 state0))"
    using plaintext_limit [OF d, of env0 state0] e by simp
  show ?thesis
    unfolding fv_def [symmetric] by (intro conjI) (rule a b c d e f)+
qed

section \<open>The expiry and the \<open>Date\<close> object\<close>

text \<open>
  Claim C8, as stated, fails: the actions are mutators. The action of \<open>Minutes\<close>,
  given a \<open>Date\<close> object that holds the time value 0, writes the new time value into
  that object; it creates no object.
\<close>

theorem action_mutates_counterexample:
  "unit (expirationUnitsAndActions ! 0) = lit ''Minutes'' \<and>
   dates (snd (newDate 0 state0)) 0 = Fin 0 \<and>
   dates (snd (action (expirationUnitsAndActions ! 0) (\<lambda>t isUTC. 0) 0 (Fin 5)
                 (snd (newDate 0 state0)))) 0 = Fin 300000 \<and>
   fresh (snd (action (expirationUnitsAndActions ! 0) (\<lambda>t isUTC. 0) 0 (Fin 5)
                 (snd (newDate 0 state0)))) = fresh (snd (newDate 0 state0))"
proof -
  have d: "dates (snd (newDate 0 state0)) 0 = Fin 0"
    by (simp add: newDate_def state0_def)
  have c: "calendarAdd 0 (\<lambda>t isUTC. 0) (5 * msPerMinute) = Fin 300000"
    by (simp add: calendarAdd_def LocalTime_def UTC_def TimeClip_def maxTime_def msPerMinute_def)
  show ?thesis
    using d by (simp add: expirationUnitsAndActions_def setMinutes_add [OF d] c)
qed

text \<open>
  Claim C8, amended. Every action writes the new time value into the \<open>Date\<close> object
  that it is given, returns that value and changes nothing else. \<open>onFormSubmit\<close> gives
  it an object that it has just created, so the other objects keep their values, and the
  expiry that is sent is a function of the clock, the time zone, the unit and the number
  of units alone.
\<close>

theorem expiry_in_place:
  "(\<forall>i \<in> set expirationUnitsAndActions.
      snd (action i tza r v s) = s\<lparr>dates := (dates s)(r := fst (action i tza r v s))\<rparr>) \<and>
   computeExpiresAt e u n s =
     (fresh s,
      s\<lparr>dates := (dates s)(fresh s := expiryValue (clock e) (localTZA e) u n),
        fresh := Suc (fresh s)\<rparr>) \<and>
   expiresAt (requestOf e d s) =
     expiryValue (clock e) (localTZA e) (expiresInUnit d) (expiresInValue d)"
  using action_in_place [of _ tza r v s] computeExpiresAt_eq [of e u n s]
    expiresAt_requestOf [of e d s]
  by blast

theorem expiry_in_place_witness:
  "expirationUnitsAndActions ! 0 \<in> set expirationUnitsAndActions \<and>
   snd (action (expirationUnitsAndActions ! 0) (\<lambda>t isUTC. 0) 0 (Fin 5) (snd (newDate 0 state0))) =
     (snd (newDate 0 state0))\<lparr>dates := (dates (snd (newDate 0 state0)))(0 := Fin 300000)\<rparr> \<and>
   computeExpiresAt env0 (lit ''Days'') 30 state0 =
     (0, state0\<lparr>dates := (dates state0)(0 := Fin 1732017600000), fresh := 1\<rparr>)"
proof -
  let ?i = "expirationUnitsAndActions ! 0"
  let ?s = "snd (newDate 0 state0)"
  note t = expiry_in_place [of "\<lambda>t isUTC. 0" 0 "Fin 5" ?s env0 "lit ''Days''" 30 form0]
  note t' = expiry_in_place [of "\<lambda>t isUTC. 0" 0 "Fin 5" state0 env0 "lit ''Days''" 30 form0]
  have a: "?i \<in> set expirationUnitsAndActions"
    by (simp add: expirationUnitsAndActions_def)
  have d: "dates ?s 0 = Fin 0"
    by (simp add: newDate_def state0_def)
  have c: "calendarAdd 0 (\<lambda>t isUTC. 0) (5 * msPerMinute) = Fin 300000"
    by (simp add: calendarAdd_def LocalTime_def UTC_def TimeClip_def maxTime_def msPerMinute_def)
  have "fst (action ?i (\<lambda>t isUTC. 0) 0 (Fin 5) ?s) = Fin 300000"
    by (simp add: expirationUnitsAndActions_def setMinutes_add [OF d] c)
  moreover have "snd (action ?i (\<lambda>t isUTC. 0) 0 (Fin 5) ?s) =
      ?s\<lparr>dates := (dates ?s)(0 := fst (action ?i (\<lambda>t isUTC. 0) 0 (Fin 5) ?s))\<rparr>"
    using t a by blast
  ultimately have b: "snd (action ?i (\<lambda>t isUTC. 0) 0 (Fin 5) ?s) =
      ?s\<lparr>dates := (dates ?s)(0 := Fin 300000)\<rparr>"
    by simp
  have x: "expiryValue (clock env0) (localTZA env0) (lit ''Days'') 30 = Fin 1732017600000"
    by (simp add: expiryValue_def unitLength_def calendarAdd_def LocalTime_def UTC_def
        TimeClip_def maxTime_def msPerDay_def env0_def lit_def)
  have "computeExpiresAt env0 (lit ''Days'') 30 state0 =
     (fresh state0,
      state0\<lparr>dates := (dates state0)
          (fresh state0 := expiryValue (clock env0) (localTZA env0) (lit ''Days'') 30),
        fresh := Suc (fresh state0)\<rparr>)"
    using t' by blast
  then have k: "computeExpiresAt env0 (lit ''Days'') 30 state0 =
     (0, state0\<lparr>dates := (dates state0)(0 := Fin 1732017600000), fresh := 1\<rparr>)"
    unfolding x by (simp add: state0_def)
  show ?thesis
    by (intro conjI) (rule a b k)+
qed

section \<open>The limits of a created record\<close>

text \<open>
  Claim C10, as stated, fails: the schema sets no upper bound on the expiration value,
  and a form that it accepts can carry the expiry past the range of \<open>Date\<close>. The
  \<open>Date\<close> that is sent is then invalid (its time value is \<open>NaN\<close>), no timestamp.
\<close>

theorem expiry_not_concrete_counterexample:
  "schema (fields0\<lparr>fieldExpiresInValue := Number 100000000\<rparr>) =
     Inr (form0\<lparr>expiresInValue := 100000000\<rparr>) \<and>
   fst (handleSubmit env0 (fields0\<lparr>fieldExpiresInValue := Number 100000000\<rparr>) state0) = [] \<and>
   map expiresAt
     (mutateArgs (snd (handleSubmit env0
        (fields0\<lparr>fieldExpiresInValue := Number 100000000\<rparr>) state0))) = [NaN]"
proof -
  define fv where "fv = fields0\<lparr>fieldExpiresInValue := Number 100000000\<rparr>"
  define d where "d = form0\<lparr>expiresInValue := 100000000\<rparr>"
  have "schemaErrors fv = []"
    by (simp add: fv_def fields0_def schemaErrors_def stringErrors_def numberErrors_def lit_def)
  then have v: "schema fv = Inr d"
    by (simp add: schema_Inr fv_def d_def fields0_def form0_def)
  have h: "\<not> falsy (currentOrgId env0)"
    by (simp add: env0_def falsy_def lit_def)
  have "mutateArgs state0 = []"
    by (simp add: mutateArgs_def state0_def)
  then have m: "mutateArgs (onFormSubmit env0 d state0) = [requestOf env0 d state0]"
    using mutateArgs_onFormSubmit [OF h, of d state0] by simp
  have x: "expiresAt (requestOf env0 d state0) = NaN"
    by (simp add: expiresAt_requestOf expiryValue_def unitLength_def calendarAdd_def
        LocalTime_def UTC_def TimeClip_def maxTime_def msPerDay_def env0_def form0_def d_def
        lit_def)
  show ?thesis
    unfolding fv_def [symmetric] d_def [symmetric]
    using v m x by (simp add: handleSubmit_valid [OF v])
qed

text \<open>
  Claim C10, amended. A submission sends a request only for a form that passed the
  schema; such a form has \<open>expiresAfterViews\<close> and \<open>expiresInValue\<close> of at least 1, and
  the request carries that number of views. The expiry that is sent is a timestamp
  whenever the unit is not one of the four, or the time computed for it lies within the
  range of \<open>Date\<close>.
\<close>

theorem submitted_limits:
  assumes "mutateArgs (snd (handleSubmit e fv s)) \<noteq> mutateArgs s"
  shows "\<exists>d. schema fv = Inr d \<and>
     mutateArgs (snd (handleSubmit e fv s)) = mutateArgs s @ [requestOf e d s] \<and>
     1 \<le> expiresAfterViews' d \<and>
     1 \<le> expiresInValue d \<and>
     expiresAfterViews (requestOf e d s) = expiresAfterViews' d \<and>
     ((case unitLength (expiresInUnit d) of
         None \<Rightarrow> True
       | Some len \<Rightarrow>
           \<bar>LocalTime (localTZA e) (clock e) + expiresInValue d * len -
             localTZA e (LocalTime (localTZA e) (clock e) + expiresInValue d * len) False\<bar>
           \<le> maxTime) \<longrightarrow>
      (\<exists>t. expiresAt (requestOf e d s) = Fin t))"
proof (cases "schema fv")
  case (Inl errs)
  then have "snd (handleSubmit e fv s) = s"
    by (simp add: handleSubmit_def)
  with assms show ?thesis
    by simp
next
  case (Inr d)
  then have hs: "snd (handleSubmit e fv s) = onFormSubmit e d s"
    by (simp add: handleSubmit_def)
  have org: "\<not> falsy (currentOrgId e)"
    using assms onFormSubmit_no_org [of e d s] unfolding hs by auto
  have c2: "mutateArgs (snd (handleSubmit e fv s)) = mutateArgs s @ [requestOf e d s]"
    unfolding hs by (rule mutateArgs_onFormSubmit [OF org])
  have c3: "1 \<le> expiresAfterViews' d" and c4: "1 \<le> expiresInValue d"
    using schema_valid_bounds [OF Inr] by simp_all
  have c5: "expiresAfterViews (requestOf e d s) = expiresAfterViews' d"
    by (simp add: requestOf_eq)
  have c6: "(case unitLength (expiresInUnit d) of
         None \<Rightarrow> True
       | Some len \<Rightarrow>
           \<bar>LocalTime (localTZA e) (clock e) + expiresInValue d * len -
             localTZA e (LocalTime (localTZA e) (clock e) + expiresInValue d * len) False\<bar>
           \<le> maxTime) \<longrightarrow>
      (\<exists>t. expiresAt (requestOf e d s) = Fin t)"
    using c4
    by (auto simp: expiresAt_requestOf expiryValue_def calendarAdd_in_range
        split: option.splits)
  show ?thesis
    using Inr c2 c3 c4 c5 c6 by blast
qed

theorem submitted_limits_witness:
  "mutateArgs (snd (handleSubmit env0 fields0 state0)) \<noteq> mutateArgs state0 \<and>
   schema fields0 = Inr form0 \<and>
   mutateArgs (snd (handleSubmit env0 fields0 state0)) = [requestOf env0 form0 state0] \<and>
   unitLength (expiresInUnit form0) = Some msPerDay \<and>
   \<bar>LocalTime (localTZA env0) (clock env0) + expiresInValue form0 * msPerDay -
     localTZA env0 (LocalTime (localTZA env0) (clock env0) + expiresInValue form0 * msPerDay)
       False\<bar> \<le> maxTime \<and>
   expiresAfterViews (requestOf env0 form0 state0) = 1 \<and>
   expiresAt (requestOf env0 form0 state0) = Fin 1732017600000"
proof -
  have "schemaErrors fields0 = []"
    by (simp add: fields0_def schemaErrors_def stringErrors_def numberErrors_def lit_def)
  then have v: "schema fields0 = Inr form0"
    by (simp add: schema_Inr fields0_def form0_def)
  have h: "\<not> falsy (currentOrgId env0)"
    by (simp add: env0_def falsy_def lit_def)
  have e: "mutateArgs state0 = []"
    by (simp add: mutateArgs_def state0_def)
  then have m: "mutateArgs (snd (handleSubmit env0 fields0 state0)) =
      [requestOf env0 form0 state0]"
    using mutateArgs_onFormSubmit [OF h, of form0 state0] by (simp add: handleSubmit_valid [OF v])
  then have a: "mutateArgs (snd (handleSubmit env0 fields0 state0)) \<noteq> mutateArgs state0"
    by (simp add: e)
  have u: "unitLength (expiresInUnit form0) = Some msPerDay"
    by (simp add: unitLength_def form0_def lit_def)
  have r: "\<bar>LocalTime (localTZA env0) (clock env0) + expiresInValue form0 * msPerDay -
     localTZA env0 (LocalTime (localTZA env0) (clock env0) + expiresInValue form0 * msPerDay)
       False\<bar> \<le> maxTime"
    by (simp add: LocalTime_def env0_def form0_def msPerDay_def maxTime_def)
  from submitted_limits [OF a] v u r
  have "expiresAfterViews (requestOf env0 form0 state0) = expiresAfterViews' form0"
    and "\<exists>t. expiresAt (requestOf env0 form0 state0) = Fin t"
    by auto
  then have w: "expiresAfterViews (requestOf env0 form0 state0) = 1"
    by (simp add: form0_def)
  have x: "expiresAt (requestOf env0 form0 state0) = Fin 1732017600000"
    by (simp add: expiresAt_requestOf expiryValue_def unitLength_def calendarAdd_def
        LocalTime_def UTC_def TimeClip_def maxTime_def msPerDay_def env0_def form0_def lit_def)
  show ?thesis
    by (intro conjI) (rule a v m u r w x)+
qed

section \<open>Redemption of a view-limited record\<close>

lemma redeem_active:
  assumes "st ident = Some r" and "status r = ACTIVE" and "validCall r (now, v)"
  shows "redeem now ident v st =
     (Inr r,
      st(ident \<mapsto> r\<lparr>viewsConsumed := viewsConsumed r + 1,
                      status := (if maxViews r = Some (viewsConsumed r + 1)
                                 then EXHAUSTED else ACTIVE)\<rparr>))"
  using assms by (auto simp: redeem_def validCall_def Let_def split: option.splits)

lemma redeem_not_active:
  assumes "st ident = Some r" and "status r \<noteq> ACTIVE"
  shows "redeem now ident v st = (Inl Expired, st)"
  using assms by (simp add: redeem_def)

lemma redeemAll_not_active:
  assumes "st ident = Some r" and "status r \<noteq> ACTIVE"
  shows "redeemAll ident calls st = replicate (length calls) (Inl Expired)"
  using assms
proof (induction calls)
  case Nil
  then show ?case by simp
next
  case (Cons c calls)
  obtain now v where c: "c = (now, v)"
    by (cases c)
  show ?case
    using Cons by (simp add: c redeem_not_active [of st ident r, OF Cons.prems])
qed

lemma redeemAll_active:
  assumes "st ident = Some r" and "status r = ACTIVE" and "maxViews r = Some n"
    and "viewsConsumed r < n" and "\<forall>c \<in> set calls. validCall r c"
  shows "\<exists>snaps. redeemAll ident calls st =
      map Inr snaps @ replicate (length calls - (n - viewsConsumed r)) (Inl Expired) \<and>
      length snaps = min (length calls) (n - viewsConsumed r)"
  using assms
proof (induction calls arbitrary: st r)
  case Nil
  then show ?case by simp
next
  case (Cons c calls)
  obtain now v where c: "c = (now, v)"
    by (cases c)
  define r' where "r' = r\<lparr>viewsConsumed := viewsConsumed r + 1,
      status := (if maxViews r = Some (viewsConsumed r + 1) then EXHAUSTED else ACTIVE)\<rparr>"
  define st' where "st' = st(ident \<mapsto> r')"
  have vc: "validCall r (now, v)"
    using Cons.prems(5) by (simp add: c)
  have step: "redeem now ident v st = (Inr r, st')"
    using redeem_active [of st ident r, OF Cons.prems(1,2) vc] by (simp add: st'_def r'_def)
  have st': "st' ident = Some r'"
    by (simp add: st'_def)
  have same: "\<forall>c \<in> set calls. validCall r' c"
    using Cons.prems(5) by (simp add: validCall_def r'_def)
  show ?case
  proof (cases "viewsConsumed r + 1 = n")
    case True
    then have "status r' \<noteq> ACTIVE"
      using Cons.prems(3) by (simp add: r'_def)
    then have "redeemAll ident calls st' = replicate (length calls) (Inl Expired)"
      using redeemAll_not_active [of st' ident r', OF st'] by simp
    then have "redeemAll ident (c # calls) st =
        map Inr [r] @ replicate (length (c # calls) - (n - viewsConsumed r)) (Inl Expired)"
      using True by (auto simp: c step)
    moreover have "length [r] = min (length (c # calls)) (n - viewsConsumed r)"
      using True by auto
    ultimately show ?thesis
      by blast
  next
    case False
    then have lt: "viewsConsumed r' < n"
      using Cons.prems(4) by (simp add: r'_def)
    have act: "status r' = ACTIVE"
      using False Cons.prems(3) by (simp add: r'_def)
    have mv: "maxViews r' = Some n"
      using Cons.prems(3) by (simp add: r'_def)
    from Cons.IH [of st' r', OF st' act mv lt same] obtain snaps where
      s: "redeemAll ident calls st' =
          map Inr snaps @ replicate (length calls - (n - viewsConsumed r')) (Inl Expired)"
      and l: "length snaps = min (length calls) (n - viewsConsumed r')"
      by blast
    have v': "viewsConsumed r' = viewsConsumed r + 1"
      by (simp add: r'_def)
    have "redeemAll ident (c # calls) st =
        map Inr (r # snaps) @
        replicate (length (c # calls) - (n - viewsConsumed r)) (Inl Expired)"
      using s Cons.prems(4) by (simp add: c step v')
    moreover have "length (r # snaps) = min (length (c # calls)) (n - viewsConsumed r)"
      using l Cons.prems(4) by (simp add: v')
    ultimately show ?thesis
      by blast
  qed
qed

text \<open>
  Claim C9. A record that is active, has consumed no view and allows \<open>n\<close> views
  (\<open>n\<close> at least 1) is redeemed by \<open>n + 1\<close> callers, each with the verifier of the
  record and before its expiry. Executed one after the other, the first \<open>n\<close>
  redemptions succeed and the last fails with \<open>Expired\<close>, the error of a record that
  is no longer active. Executed concurrently, in whatever order the store takes the
  atomic steps of the callers, exactly \<open>n\<close> redemptions succeed; for one view and two
  callers, never both.
\<close>

theorem view_limit:
  assumes "st ident = Some r" and "status r = ACTIVE" and "viewsConsumed r = 0"
    and "maxViews r = Some n" and "1 \<le> n"
    and "length calls = n + 1" and "\<forall>c \<in> set calls. validCall r c"
  shows "(\<exists>snaps. redeemAll ident calls st = map Inr snaps @ [Inl Expired] \<and> length snaps = n) \<and>
     (\<forall>schedule. mset schedule = mset calls \<longrightarrow> successes (redeemAll ident schedule st) = n)"
proof -
  have lt: "viewsConsumed r < n"
    using assms(3,5) by simp
  have run: "\<exists>snaps. redeemAll ident cs st = map Inr snaps @ [Inl Expired] \<and> length snaps = n"
    if "length cs = n + 1" and "\<forall>c \<in> set cs. validCall r c" for cs
  proof -
    from redeemAll_active [of st ident r, OF assms(1,2,4) lt that(2)] obtain snaps where
      "redeemAll ident cs st =
         map Inr snaps @ replicate (length cs - (n - viewsConsumed r)) (Inl Expired)"
      and "length snaps = min (length cs) (n - viewsConsumed r)"
      by blast
    then show ?thesis
      using that(1) assms(3) by (auto simp: numeral_eq_Suc)
  qed
  have c1: "\<exists>snaps. redeemAll ident calls st = map Inr snaps @ [Inl Expired] \<and> length snaps = n"
    using assms(6,7) by (rule run)
  have c2: "\<forall>schedule. mset schedule = mset calls \<longrightarrow>
      successes (redeemAll ident schedule st) = n"
  proof (intro allI impI)
    fix schedule :: "(int \<times> jsstring) list"
    assume m: "mset schedule = mset calls"
    then have "length schedule = n + 1"
      using assms(6) mset_eq_length by fastforce
    moreover have "\<forall>c \<in> set schedule. validCall r c"
      using assms(7) m mset_eq_setD by blast
    ultimately obtain snaps where
      "redeemAll ident schedule st = map Inr snaps @ [Inl Expired]" and "length snaps = n"
      using run by blast
    then show "successes (redeemAll ident schedule st) = n"
      by (simp add: successes_def)
  qed
  show ?thesis
    using c1 c2 by (rule conjI)
qed


theorem view_limit_witness:
  "store0 (lit ''id7'') = Some record0 \<and> status record0 = ACTIVE \<and>
   viewsConsumed record0 = 0 \<and> maxViews record0 = Some 1 \<and> (1::nat) \<le> 1 \<and>
   length calls0 = 1 + 1 \<and>
   validCall record0 (calls0 ! 0) \<and> validCall record0 (calls0 ! 1) \<and>
   redeemAll (lit ''id7'') calls0 store0 = [Inr record0, Inl Expired] \<and>
   mset (rev calls0) = mset calls0 \<and>
   successes (redeemAll (lit ''id7'') (rev calls0) store0) = 1"
proof -
  have a: "store0 (lit ''id7'') = Some record0"
    by (simp add: store0_def)
  have b: "status record0 = ACTIVE" and c: "viewsConsumed record0 = 0"
    and d: "maxViews record0 = Some 1"
    by (simp_all add: record0_def)
  have e: "(1::nat) \<le> 1"
    by simp
  have f: "length calls0 = 1 + 1"
    by (simp add: calls0_def)
  have g: "validCall record0 (calls0 ! 0)" and h: "validCall record0 (calls0 ! 1)"
    by (simp_all add: validCall_def record0_def calls0_def)
  then have i: "\<forall>c \<in> set calls0. validCall record0 c"
    by (simp add: calls0_def)
  note t = view_limit [of store0 "lit ''id7''" record0 1 calls0, OF a b c d e f i]
  have j: "mset (rev calls0) = mset calls0"
    by simp
  then have k: "successes (redeemAll (lit ''id7'') (rev calls0) store0) = 1"
    using t by blast
  from t obtain snaps where
    s: "redeemAll (lit ''id7'') calls0 store0 = map Inr snaps @ [Inl Expired]"
    and "length snaps = 1"
    by blast
  then obtain x where x: "snaps = [x]"
    by (cases snaps) auto
  have "redeem 1729425600000 (lit ''id7'') (lit ''c5'') store0 =
      (Inr record0,
       store0(lit ''id7'' \<mapsto> record0\<lparr>viewsConsumed := viewsConsumed record0 + 1,
         status := (if maxViews record0 = Some (viewsConsumed record0 + 1)
                    then EXHAUSTED else ACTIVE)\<rparr>))"
    using redeem_active [of store0 "lit ''id7''" record0 1729425600000 "lit ''c5''", OF a b]
      g by (simp add: calls0_def)
  then have "hd (redeemAll (lit ''id7'') calls0 store0) = Inr record0"
    by (simp add: calls0_def)
  then have "x = record0"
    using s x by simp
  then have l: "redeemAll (lit ''id7'') calls0 store0 = [Inr record0, Inl Expired]"
    using s x by simp
  show ?thesis
    by (intro conjI) (rule a b c d e f g h l j k)+
qed

end
